theory Spec2Isabelle
  imports Complex_Main
begin

section \<open>Farm mapping page (FarmMapping)\<close>

text \<open>
  JavaScript numbers are modelled as real numbers: every latitude, longitude, distance
  and area below is a \<^typ>\<open>real\<close>, so rounding error, infinities and NaN of IEEE doubles
  are outside the model.
\<close>

subsection \<open>Leaflet's geographic types\<close>

record LatLng =
  lat :: real
  lng :: real

text \<open>
  \<open>LatLngBounds\<close> belongs to the Leaflet library. Its constructor extends an empty
  box by the two corners it is given, so the south-west corner holds the smaller latitude
  and longitude and the north-east corner the larger ones; \<open>contains\<close> compares a
  point with both corners, borders included.
\<close>

record LatLngBounds =
  southWest :: LatLng
  northEast :: LatLng

definition newLatLngBounds :: "LatLng \<Rightarrow> LatLng \<Rightarrow> LatLngBounds" where
  "newLatLngBounds a b =
     \<lparr>southWest = \<lparr>lat = min (lat a) (lat b), lng = min (lng a) (lng b)\<rparr>,
      northEast = \<lparr>lat = max (lat a) (lat b), lng = max (lng a) (lng b)\<rparr>\<rparr>"

definition getSouthWest :: "LatLngBounds \<Rightarrow> LatLng" where
  "getSouthWest b = southWest b"

definition getNorthEast :: "LatLngBounds \<Rightarrow> LatLng" where
  "getNorthEast b = northEast b"

definition contains :: "LatLngBounds \<Rightarrow> LatLng \<Rightarrow> bool" where
  "contains b p \<longleftrightarrow>
     lat (southWest b) \<le> lat p \<and> lat p \<le> lat (northEast b) \<and>
     lng (southWest b) \<le> lng p \<and> lng p \<le> lng (northEast b)"

subsection \<open>Component state\<close>

text \<open>
  The interfaces \<open>Obstacle\<close> and \<open>NoFlyZone\<close>; the second has the fields of the first
  and an optional \<open>reason\<close>. The field \<open>id\<close> is called \<open>uid\<close> here. A boundary point is
  the pair \<open>[lat, lng]\<close>.
\<close>

record Obstacle =
  uid :: string
  boundary :: "(real \<times> real) list"
  area :: real

record NoFlyZone = Obstacle +
  reason :: "string option"

datatype Mode = ModeBase | ModeObstacle | ModeNofly

datatype Pin = NextA | NextB

record Metrics =
  width :: real
  length_m :: real
  baseArea :: real
  netArea :: real

record FarmMapping =
  pinA :: LatLng
  pinB :: LatLng
  mode :: Mode
  nextPin :: Pin
  obstacles :: "Obstacle list"
  noFlyZones :: "NoFlyZone list"
  obstacleStart :: "LatLng option"
  noFlyStart :: "LatLng option"

definition defaultPinA :: LatLng where
  "defaultPinA = \<lparr>lat = 36.7367, lng = - 119.7851\<rparr>"

definition defaultPinB :: LatLng where
  "defaultPinB = \<lparr>lat = 36.7386, lng = - 119.7823\<rparr>"

definition initialMapping :: FarmMapping where
  "initialMapping =
     \<lparr>pinA = defaultPinA, pinB = defaultPinB, mode = ModeBase, nextPin = NextA,
      obstacles = [], noFlyZones = [], obstacleStart = None, noFlyStart = None\<rparr>"

subsection \<open>calculateMetrics\<close>

text \<open>
  \<open>LatLng.distanceTo\<close> is Leaflet's great-circle distance. It is a parameter
  \<open>distanceTo\<close> of every function that measures. \<open>calculateMetrics\<close> returns the
  record it hands to \<open>setMetrics\<close>; \<open>reduce\<close> is a left fold from 0.
\<close>

definition calculateMetrics :: "(LatLng \<Rightarrow> LatLng \<Rightarrow> real) \<Rightarrow> FarmMapping \<Rightarrow> Metrics" where
  "calculateMetrics distanceTo s =
     (let bounds = newLatLngBounds (pinA s) (pinB s);
          sw = getSouthWest bounds;
          ne = getNorthEast bounds;
          nw = \<lparr>lat = lat ne, lng = lng sw\<rparr>;
          se = \<lparr>lat = lat sw, lng = lng ne\<rparr>;
          w = distanceTo sw se;
          l = distanceTo sw nw;
          base = w * l;
          obstacleArea = foldl (\<lambda>sum obs. sum + area obs) 0 (obstacles s);
          noFlyArea = foldl (\<lambda>sum nfz. sum + area nfz) 0 (noFlyZones s);
          net = max (base - obstacleArea - noFlyArea) 0
      in \<lparr>width = w, length_m = l, baseArea = base, netArea = net\<rparr>)"

subsection \<open>The map click handler\<close>

text \<open>
  \<open>click\<close> is the \<open>click\<close> callback of \<open>MapClickHandler\<close>. Its arguments are
  Leaflet's \<open>distanceTo\<close>, the value that \<open>crypto.randomUUID()\<close> would return, and the
  clicked position \<open>e.latlng\<close>. It returns the text of the alert it raises, if any, and
  the next component state.
\<close>

definition click ::
  "(LatLng \<Rightarrow> LatLng \<Rightarrow> real) \<Rightarrow> string \<Rightarrow> LatLng \<Rightarrow> FarmMapping \<Rightarrow> string option \<times> FarmMapping" where
  "click distanceTo uuid e s =
     (case mode s of
        ModeBase \<Rightarrow>
          (if nextPin s = NextA then (None, s\<lparr>pinA := e, nextPin := NextB\<rparr>)
           else (None, s\<lparr>pinB := e, nextPin := NextA\<rparr>))
      | ModeObstacle \<Rightarrow>
          (let bounds = newLatLngBounds (pinA s) (pinB s) in
           if \<not> contains bounds e then (Some ''Please click inside the main rectangle.'', s)
           else
             (case obstacleStart s of
                None \<Rightarrow> (None, s\<lparr>obstacleStart := Some e\<rparr>)
              | Some start \<Rightarrow>
                  (let obsBounds = newLatLngBounds start e;
                       sw = getSouthWest obsBounds;
                       ne = getNorthEast obsBounds;
                       nw = \<lparr>lat = lat ne, lng = lng sw\<rparr>;
                       se = \<lparr>lat = lat sw, lng = lng ne\<rparr>;
                       w = distanceTo sw se;
                       l = distanceTo sw nw;
                       a = w * l;
                       newObstacle =
                         \<lparr>uid = uuid,
                          boundary = [(lat sw, lng sw), (lat se, lng se), (lat ne, lng ne),
                                      (lat nw, lng nw), (lat sw, lng sw)],
                          area = a\<rparr>;
                       s1 = (if a > 1 then s\<lparr>obstacles := obstacles s @ [newObstacle]\<rparr> else s)
                   in (None, s1\<lparr>obstacleStart := None\<rparr>))))
      | ModeNofly \<Rightarrow>
          (let bounds = newLatLngBounds (pinA s) (pinB s) in
           if \<not> contains bounds e then (Some ''Please click inside the main rectangle.'', s)
           else
             (case noFlyStart s of
                None \<Rightarrow> (None, s\<lparr>noFlyStart := Some e\<rparr>)
              | Some start \<Rightarrow>
                  (let nfzBounds = newLatLngBounds start e;
                       sw = getSouthWest nfzBounds;
                       ne = getNorthEast nfzBounds;
                       nw = \<lparr>lat = lat ne, lng = lng sw\<rparr>;
                       se = \<lparr>lat = lat sw, lng = lng ne\<rparr>;
                       w = distanceTo sw se;
                       l = distanceTo sw nw;
                       a = w * l;
                       newNoFlyZone =
                         \<lparr>uid = uuid,
                          boundary = [(lat sw, lng sw), (lat se, lng se), (lat ne, lng ne),
                                      (lat nw, lng nw), (lat sw, lng sw)],
                          area = a,
                          reason = Some ''Safety restriction''\<rparr>;
                       s1 = (if a > 1 then s\<lparr>noFlyZones := noFlyZones s @ [newNoFlyZone]\<rparr> else s)
                   in (None, s1\<lparr>noFlyStart := None\<rparr>)))))"

subsection \<open>The other controls of the page\<close>

text \<open>
  Each event is one user action. The two markers are draggable only while the mode is
  \<open>base\<close>; the buttons "Lock Boundary" and "Reset" are rendered only in that mode, the
  mode switches and "Restart Mapping" only outside it. An action whose control is not
  there leaves the state as it is.
\<close>

datatype MapEvent =
    MapClick string LatLng
  | DragEndA LatLng
  | DragEndB LatLng
  | LockBoundary
  | ResetPins
  | SelectObstacles
  | SelectNoFly
  | RestartMapping
  | RemoveObstacle string
  | RemoveNoFlyZone string

fun mapStep :: "(LatLng \<Rightarrow> LatLng \<Rightarrow> real) \<Rightarrow> MapEvent \<Rightarrow> FarmMapping \<Rightarrow> FarmMapping" where
  "mapStep distanceTo (MapClick uuid e) s = snd (click distanceTo uuid e s)"
| "mapStep distanceTo (DragEndA p) s = (if mode s = ModeBase then s\<lparr>pinA := p\<rparr> else s)"
| "mapStep distanceTo (DragEndB p) s = (if mode s = ModeBase then s\<lparr>pinB := p\<rparr> else s)"
| "mapStep distanceTo LockBoundary s =
     (if mode s = ModeBase then s\<lparr>mode := ModeObstacle\<rparr> else s)"
| "mapStep distanceTo ResetPins s =
     (if mode s = ModeBase then s\<lparr>pinA := defaultPinA, pinB := defaultPinB, nextPin := NextA\<rparr>
      else s)"
| "mapStep distanceTo SelectObstacles s =
     (if mode s \<noteq> ModeBase then s\<lparr>mode := ModeObstacle\<rparr> else s)"
| "mapStep distanceTo SelectNoFly s =
     (if mode s \<noteq> ModeBase then s\<lparr>mode := ModeNofly\<rparr> else s)"
| "mapStep distanceTo RestartMapping s =
     (if mode s \<noteq> ModeBase
      then s\<lparr>mode := ModeBase, obstacles := [], noFlyZones := [],
             obstacleStart := None, noFlyStart := None\<rparr>
      else s)"
| "mapStep distanceTo (RemoveObstacle i) s =
     s\<lparr>obstacles := filter (\<lambda>ob. uid ob \<noteq> i) (obstacles s)\<rparr>"
| "mapStep distanceTo (RemoveNoFlyZone i) s =
     s\<lparr>noFlyZones := filter (\<lambda>z. uid z \<noteq> i) (noFlyZones s)\<rparr>"

fun mapRun :: "(LatLng \<Rightarrow> LatLng \<Rightarrow> real) \<Rightarrow> MapEvent list \<Rightarrow> FarmMapping \<Rightarrow> FarmMapping" where
  "mapRun distanceTo [] s = s"
| "mapRun distanceTo (ev # evs) s = mapRun distanceTo evs (mapStep distanceTo ev s)"

subsection \<open>latLngToMeters and exportJSON\<close>

text \<open>
  \<open>toFixed d x\<close> is \<open>parseFloat(x.toFixed(d))\<close>: \<open>x\<close> rounded to \<open>d\<close> decimals, a tie
  going away from zero.
\<close>

definition toFixed :: "nat \<Rightarrow> real \<Rightarrow> real" where
  "toFixed d x =
     (if x < 0 then - (of_int \<lfloor>(- x) * 10 ^ d + 1 / 2\<rfloor> / 10 ^ d)
      else of_int \<lfloor>x * 10 ^ d + 1 / 2\<rfloor> / 10 ^ d)"

definition latLngToMeters :: "LatLng \<Rightarrow> LatLng \<Rightarrow> real \<times> real" where
  "latLngToMeters latLng origin =
     (let R = 6371000;
          lat1 = lat origin * pi / 180;
          lat2 = lat latLng * pi / 180;
          deltaLng = (lng latLng - lng origin) * pi / 180;
          deltaLat = (lat latLng - lat origin) * pi / 180;
          x = R * deltaLng * cos ((lat1 + lat2) / 2);
          y = R * deltaLat
      in (toFixed 2 x, toFixed 2 y))"

text \<open>
  A JavaScript value as far as JSON reaches, with \<open>undefined\<close>. An object is the list of
  its properties in insertion order.
\<close>

datatype jsval =
    JUndefined
  | JNull
  | JBool bool
  | JNum real
  | JStr string
  | JArr "jsval list"
  | JObj "(string \<times> jsval) list"

definition point :: "real \<times> real \<Rightarrow> jsval" where
  "point p = JArr [JNum (fst p), JNum (snd p)]"

text \<open>
  \<open>exportJSON\<close> returns the object \<open>json\<close> that it serialises and offers for download.
  The argument \<open>timestamp\<close> is the compacted ISO time that the clock gives.
\<close>

definition exportJSON :: "string \<Rightarrow> FarmMapping \<Rightarrow> jsval" where
  "exportJSON timestamp s =
     (let bounds = newLatLngBounds (pinA s) (pinB s);
          sw = getSouthWest bounds;
          ne = getNorthEast bounds;
          nw = \<lparr>lat = lat ne, lng = lng sw\<rparr>;
          se = \<lparr>lat = lat sw, lng = lng ne\<rparr>;
          origin = sw;
          boundary_m =
            [point (0, 0), point (latLngToMeters se origin), point (latLngToMeters ne origin),
             point (latLngToMeters nw origin), point (0, 0)];
          obstaclesData =
            map (\<lambda>obs. JObj
                  [(''type'', JStr ''obstacle''),
                   (''boundary'',
                    JArr (map (\<lambda>latLng. point (latLngToMeters \<lparr>lat = fst latLng, lng = snd latLng\<rparr> origin))
                           (boundary obs)))])
              (obstacles s);
          noFlyZonesData =
            map (\<lambda>nfz. JObj
                  [(''type'', JStr ''no_fly_zone''),
                   (''boundary'',
                    JArr (map (\<lambda>latLng. point (latLngToMeters \<lparr>lat = fst latLng, lng = snd latLng\<rparr> origin))
                           (boundary nfz))),
                   (''reason'',
                    JStr (case reason nfz of
                            None \<Rightarrow> ''Safety restriction''
                          | Some r \<Rightarrow> if r = [] then ''Safety restriction'' else r))])
              (noFlyZones s);
          fieldId = ''farm_'' @ timestamp
      in JObj
           [(''field_id'', JStr fieldId),
            (''name'', JStr ''Farm Field from Phase 1 Mapping''),
            (''boundary'', JArr boundary_m),
            (''obstacles'', JArr obstaclesData),
            (''no_fly_zones'', JArr noFlyZonesData),
            (''reference_point'',
             JObj [(''lat'', JNum (toFixed 6 (lat origin))),
                   (''lon'', JNum (toFixed 6 (lng origin)))])])"

text \<open>
  Reading a property: an own property of an object, \<open>undefined\<close> where there is none.
\<close>

definition getProp :: "jsval \<Rightarrow> string \<Rightarrow> jsval" where
  "getProp v k = (case v of JObj kvs \<Rightarrow> (case map_of kvs k of Some x \<Rightarrow> x | None \<Rightarrow> JUndefined)
               | _ \<Rightarrow> JUndefined)"

definition elements :: "jsval \<Rightarrow> jsval list" where
  "elements v = (case v of JArr xs \<Rightarrow> xs | _ \<Rightarrow> [])"

text \<open>
  The polygons of an exported field map: the field boundary, then the boundary of each
  obstacle, then the boundary of each no-fly zone. A polygon is closed when it has a
  first point and its last point equals it.
\<close>

definition exportedPolygons :: "jsval \<Rightarrow> jsval list" where
  "exportedPolygons j =
     getProp j ''boundary''
       # map (\<lambda>r. getProp r ''boundary'') (elements (getProp j ''obstacles''))
       @ map (\<lambda>r. getProp r ''boundary'') (elements (getProp j ''no_fly_zones''))"

definition closedPolygon :: "jsval \<Rightarrow> bool" where
  "closedPolygon v = (case v of JArr ps \<Rightarrow> ps \<noteq> [] \<and> hd ps = last ps | _ \<Rightarrow> False)"

definition toLatLng :: "real \<times> real \<Rightarrow> LatLng" where
  "toLatLng p = \<lparr>lat = fst p, lng = snd p\<rparr>"

subsection \<open>Vocabulary of the properties\<close>

text \<open>
  The rectangle that two clicks span, as both branches of \<open>click\<close> compute it: its five
  corner points, south-west first and last, and its area.
\<close>

definition rectangleRing :: "LatLng \<Rightarrow> LatLng \<Rightarrow> (real \<times> real) list" where
  "rectangleRing p q =
     (let b = newLatLngBounds p q; sw = getSouthWest b; ne = getNorthEast b
      in [(lat sw, lng sw), (lat sw, lng ne), (lat ne, lng ne), (lat ne, lng sw), (lat sw, lng sw)])"

definition rectangleArea :: "(LatLng \<Rightarrow> LatLng \<Rightarrow> real) \<Rightarrow> LatLng \<Rightarrow> LatLng \<Rightarrow> real" where
  "rectangleArea distanceTo p q =
     (let b = newLatLngBounds p q; sw = getSouthWest b; ne = getNorthEast b
      in distanceTo sw \<lparr>lat = lat sw, lng = lng ne\<rparr> * distanceTo sw \<lparr>lat = lat ne, lng = lng sw\<rparr>)"

definition fieldBounds :: "FarmMapping \<Rightarrow> LatLngBounds" where
  "fieldBounds s = newLatLngBounds (pinA s) (pinB s)"

definition ringInside :: "LatLngBounds \<Rightarrow> (real \<times> real) list \<Rightarrow> bool" where
  "ringInside b ring = list_all (\<lambda>p. contains b (toLatLng p)) ring"

definition ringClosed :: "(real \<times> real) list \<Rightarrow> bool" where
  "ringClosed ring \<longleftrightarrow> ring \<noteq> [] \<and> hd ring = last ring"

text \<open>
  What holds of the page after any sequence of user actions: each stored region lies in
  the field rectangle, is a closed ring and is larger than one square metre; a pending
  first corner lies in the field rectangle; and in mode \<open>base\<close> nothing is stored.
\<close>

definition mapInv :: "FarmMapping \<Rightarrow> bool" where
  "mapInv s \<longleftrightarrow>
     list_all (\<lambda>ob. ringInside (fieldBounds s) (boundary ob) \<and> ringClosed (boundary ob) \<and> 1 < area ob)
       (obstacles s) \<and>
     list_all (\<lambda>z. ringInside (fieldBounds s) (boundary z) \<and> ringClosed (boundary z) \<and> 1 < area z)
       (noFlyZones s) \<and>
     (case obstacleStart s of None \<Rightarrow> True | Some p \<Rightarrow> contains (fieldBounds s) p) \<and>
     (case noFlyStart s of None \<Rightarrow> True | Some p \<Rightarrow> contains (fieldBounds s) p) \<and>
     (mode s = ModeBase \<longrightarrow>
        obstacles s = [] \<and> noFlyZones s = [] \<and> obstacleStart s = None \<and> noFlyStart s = None)"

subsection \<open>Sample inputs\<close>

text \<open>
  A stand-in for Leaflet's \<open>distanceTo\<close> on which sample runs can be computed: one
  hundred kilometres per degree along each axis. Two corners inside the default field
  rectangle, a point outside it, and the page after both kinds of region were drawn
  between the two corners.
\<close>

definition flatDistance :: "LatLng \<Rightarrow> LatLng \<Rightarrow> real" where
  "flatDistance p q = 100000 * (\<bar>lat p - lat q\<bar> + \<bar>lng p - lng q\<bar>)"

definition cornerP :: LatLng where
  "cornerP = \<lparr>lat = 36.737, lng = - 119.785\<rparr>"

definition cornerQ :: LatLng where
  "cornerQ = \<lparr>lat = 36.738, lng = - 119.783\<rparr>"

definition outsideP :: LatLng where
  "outsideP = \<lparr>lat = 36.75, lng = - 119.78\<rparr>"

definition obstaclePending :: FarmMapping where
  "obstaclePending = mapRun flatDistance [LockBoundary, MapClick ''u1'' cornerP] initialMapping"

definition noFlyPending :: FarmMapping where
  "noFlyPending =
     mapRun flatDistance [LockBoundary, SelectNoFly, MapClick ''u1'' cornerP] initialMapping"

definition demoEvents :: "MapEvent list" where
  "demoEvents =
     [LockBoundary, MapClick ''u1'' cornerP, MapClick ''u2'' cornerQ, SelectNoFly,
      MapClick ''u3'' cornerP, MapClick ''u4'' cornerQ]"

definition demoRing :: "(real \<times> real) list" where
  "demoRing =
     [(36.737, - 119.785), (36.737, - 119.783), (36.738, - 119.783),
      (36.738, - 119.785), (36.737, - 119.785)]"

definition demoMapping :: FarmMapping where
  "demoMapping =
     \<lparr>pinA = defaultPinA, pinB = defaultPinB, mode = ModeNofly, nextPin = NextA,
      obstacles = [\<lparr>uid = ''u2'', boundary = demoRing, area = 20000\<rparr>],
      noFlyZones =
        [\<lparr>uid = ''u4'', boundary = demoRing, area = 20000, reason = Some ''Safety restriction''\<rparr>],
      obstacleStart = None, noFlyStart = None\<rparr>"

section \<open>Mission control page (MissionControl)\<close>

subsection \<open>JavaScript values at run time\<close>

text \<open>
  \<open>JSON.stringify\<close> as a map on trees, giving the tree that the written text denotes: a
  property whose value is \<open>undefined\<close> is left out and an \<open>undefined\<close> array element
  becomes \<open>null\<close>.
\<close>

fun stringify :: "jsval \<Rightarrow> jsval" where
  "stringify (JObj kvs) =
     JObj (map (\<lambda>(k, v). (k, stringify v)) (filter (\<lambda>(k, v). v \<noteq> JUndefined) kvs))"
| "stringify (JArr xs) = JArr (map (\<lambda>v. if v = JUndefined then JNull else stringify v) xs)"
| "stringify v = v"

text \<open>The truth value of a value in a condition.\<close>

fun truthy :: "jsval \<Rightarrow> bool" where
  "truthy JUndefined = False"
| "truthy JNull = False"
| "truthy (JBool b) = b"
| "truthy (JNum n) = (n \<noteq> 0)"
| "truthy (JStr s) = (s \<noteq> [])"
| "truthy (JArr xs) = True"
| "truthy (JObj kvs) = True"

text \<open>Optional chaining \<open>v?.k\<close>.\<close>

definition optChain :: "jsval \<Rightarrow> string \<Rightarrow> jsval" where
  "optChain v k = (if v = JNull \<or> v = JUndefined then JUndefined else getProp v k)"

text \<open>
  What the JavaScript engine supplies: \<open>JSON.parse\<close>, with \<open>None\<close> where it throws a
  SyntaxError; the string that a template literal makes of a value; and the number that a
  comparison makes of a string, an array or an object, with \<open>None\<close> for NaN.
\<close>

record Runtime =
  jsonParse :: "string \<Rightarrow> jsval option"
  toString :: "jsval \<Rightarrow> string"
  coerceNumber :: "jsval \<Rightarrow> real option"

definition toNumber :: "Runtime \<Rightarrow> jsval \<Rightarrow> real option" where
  "toNumber rt v =
     (case v of
        JNum n \<Rightarrow> Some n
      | JUndefined \<Rightarrow> None
      | JNull \<Rightarrow> Some 0
      | JBool b \<Rightarrow> Some (if b then 1 else 0)
      | _ \<Rightarrow> coerceNumber rt v)"

text \<open>The comparison \<open>v > n\<close> with a number on the right; it is false on NaN.\<close>

definition greaterThan :: "Runtime \<Rightarrow> jsval \<Rightarrow> real \<Rightarrow> bool" where
  "greaterThan rt v n = (case toNumber rt v of None \<Rightarrow> False | Some x \<Rightarrow> n < x)"

definition lowerChar :: "char \<Rightarrow> char" where
  "lowerChar c =
     (case map_of (zip ''ABCDEFGHIJKLMNOPQRSTUVWXYZ'' ''abcdefghijklmnopqrstuvwxyz'') c of
        Some l \<Rightarrow> l
      | None \<Rightarrow> c)"

definition toLowerCase :: "string \<Rightarrow> string" where
  "toLowerCase k = map lowerChar k"

subsection \<open>Component state and its surroundings\<close>

text \<open>
  A function defined in the component body sees the state of the render that created it.
  The keyboard effect runs only when \<open>manualMode\<close> or \<open>droneConnected\<close> changes, so its
  listeners, and the \<open>sendManualCommands\<close> they hand to \<open>setInterval\<close>, keep the \<open>ws\<close>
  and \<open>droneConnected\<close> of that render.
\<close>

record Captured =
  c_ws :: bool
  c_droneConnected :: bool

record Interval =
  timerId :: nat
  period :: nat
  callback :: Captured

datatype ReadyState = CONNECTING | OPEN | CLOSED

text \<open>
  The first group of fields is the component's state and refs; \<open>ws\<close> tells whether the
  state holds the socket or \<open>null\<close>. The second group is the browser: the state of the
  WebSocket, the messages it has accepted for sending (oldest first), the running
  intervals, the pending timeouts of \<open>connectDrone\<close>, the next timer id (ids are
  positive), and the captured values of the attached key listeners, if they are attached.
\<close>

record MissionControl =
  ws :: bool
  connected :: bool
  droneConnected :: bool
  streaming :: bool
  videoFrame :: jsval
  telemetry :: jsval
  missionStatus :: jsval
  fieldMap :: jsval
  flightPlan :: jsval
  altitude :: real
  overlap :: real
  manualMode :: bool
  keysPressed :: "string set"
  controlInterval :: "nat option"
  socket :: ReadyState
  sent :: "jsval list"
  intervals :: "Interval list"
  timeouts :: "nat list"
  nextTimerId :: nat
  listeners :: "Captured option"

definition initialControl :: MissionControl where
  "initialControl =
     \<lparr>ws = False, connected = False, droneConnected = False, streaming = False,
      videoFrame = JStr [], telemetry = JNull, missionStatus = JNull, fieldMap = JNull,
      flightPlan = JNull, altitude = 200, overlap = 30, manualMode = False,
      keysPressed = {}, controlInterval = None,
      socket = CONNECTING, sent = [], intervals = [], timeouts = [], nextTimerId = 1,
      listeners = None\<rparr>"

subsection \<open>Sending\<close>

text \<open>
  \<open>send\<close> on a socket that the component holds: the socket has been open, so the call
  does not throw; an open socket takes the message and a closed one discards it.
\<close>

definition wsSend :: "jsval \<Rightarrow> MissionControl \<Rightarrow> MissionControl" where
  "wsSend msg s = (if socket s = OPEN then s\<lparr>sent := sent s @ [msg]\<rparr> else s)"

text \<open>
  \<open>sendCommand\<close>; its first argument is the \<open>ws\<close> that the calling closure sees, and
  \<open>params\<close> are the properties spread after \<open>action\<close>.
\<close>

definition sendCommand ::
  "bool \<Rightarrow> string \<Rightarrow> (string \<times> jsval) list \<Rightarrow> MissionControl \<Rightarrow> MissionControl" where
  "sendCommand w action params s =
     (if \<not> w then s else wsSend (stringify (JObj ((''action'', JStr action) # params))) s)"

definition sendManualCommands :: "Captured \<Rightarrow> MissionControl \<Rightarrow> MissionControl" where
  "sendManualCommands c s =
     (if \<not> c_ws c \<or> \<not> c_droneConnected c then s
      else
        (let keys = keysPressed s;
             s1 = (if ''w'' \<in> keys then sendCommand (c_ws c) ''move_forward'' [(''distance'', JNum 20)] s else s);
             s2 = (if ''s'' \<in> keys then sendCommand (c_ws c) ''move_back'' [(''distance'', JNum 20)] s1 else s1);
             s3 = (if ''a'' \<in> keys then sendCommand (c_ws c) ''move_left'' [(''distance'', JNum 20)] s2 else s2);
             s4 = (if ''d'' \<in> keys then sendCommand (c_ws c) ''move_right'' [(''distance'', JNum 20)] s3 else s3);
             s5 = (if ''arrowup'' \<in> keys then sendCommand (c_ws c) ''move_up'' [(''distance'', JNum 20)] s4 else s4);
             s6 = (if ''arrowdown'' \<in> keys then sendCommand (c_ws c) ''move_down'' [(''distance'', JNum 20)] s5 else s5);
             s7 = (if ''arrowleft'' \<in> keys then sendCommand (c_ws c) ''rotate_ccw'' [(''degrees'', JNum 15)] s6 else s6);
             s8 = (if ''arrowright'' \<in> keys then sendCommand (c_ws c) ''rotate_cw'' [(''degrees'', JNum 15)] s7 else s7)
         in if '' '' \<in> keys then (sendCommand (c_ws c) ''land'' [] s8)\<lparr>manualMode := False\<rparr> else s8))"

subsection \<open>Keyboard listeners and the sampling interval\<close>

definition clearInterval :: "nat \<Rightarrow> MissionControl \<Rightarrow> MissionControl" where
  "clearInterval i s = s\<lparr>intervals := filter (\<lambda>t. timerId t \<noteq> i) (intervals s)\<rparr>"

definition handleKeyDown :: "Captured \<Rightarrow> string \<Rightarrow> MissionControl \<Rightarrow> MissionControl" where
  "handleKeyDown c key s =
     (let s1 = s\<lparr>keysPressed := insert (toLowerCase key) (keysPressed s)\<rparr>
      in case controlInterval s1 of
           Some i \<Rightarrow> s1
         | None \<Rightarrow>
             s1\<lparr>intervals := intervals s1 @ [\<lparr>timerId = nextTimerId s1, period = 200, callback = c\<rparr>],
                controlInterval := Some (nextTimerId s1),
                nextTimerId := nextTimerId s1 + 1\<rparr>)"

definition handleKeyUp :: "string \<Rightarrow> MissionControl \<Rightarrow> MissionControl" where
  "handleKeyUp key s =
     (let s1 = s\<lparr>keysPressed := keysPressed s - {toLowerCase key}\<rparr>
      in case controlInterval s1 of
           Some i \<Rightarrow> (if keysPressed s1 = {} then (clearInterval i s1)\<lparr>controlInterval := None\<rparr> else s1)
         | None \<Rightarrow> s1)"

text \<open>
  The keyboard effect, run after a handler took the component from \<open>before\<close> to \<open>s\<close>.
  When neither dependency changed nothing happens. Otherwise the cleanup of the previous
  run, if that run attached listeners, removes them and clears the interval that the ref
  holds (the ref itself keeps its value); then the effect body attaches new listeners if
  manual mode is on and the drone is connected.
\<close>

definition keyboardEffect :: "MissionControl \<Rightarrow> MissionControl \<Rightarrow> MissionControl" where
  "keyboardEffect before s =
     (if manualMode before = manualMode s \<and> droneConnected before = droneConnected s then s
      else
        (let s1 = (case listeners s of
                     None \<Rightarrow> s
                   | Some c \<Rightarrow>
                       (case controlInterval s of
                          None \<Rightarrow> s\<lparr>listeners := None\<rparr>
                        | Some i \<Rightarrow> (clearInterval i s)\<lparr>listeners := None\<rparr>))
         in if \<not> manualMode s1 \<or> \<not> droneConnected s1 then s1
            else s1\<lparr>listeners := Some \<lparr>c_ws = ws s1, c_droneConnected = droneConnected s1\<rparr>\<rparr>))"

subsection \<open>The WebSocket callbacks\<close>

definition onopen :: "MissionControl \<Rightarrow> MissionControl" where
  "onopen s = s\<lparr>connected := True, ws := True\<rparr>"

text \<open>
  \<open>onmessage\<close>: a SyntaxError of \<open>JSON.parse\<close> and the TypeError of reading \<open>type\<close> from
  \<open>null\<close> both land in the \<open>catch\<close>, which only logs.
\<close>

definition onmessage :: "Runtime \<Rightarrow> string \<Rightarrow> MissionControl \<Rightarrow> MissionControl" where
  "onmessage rt raw s =
     (case jsonParse rt raw of
        None \<Rightarrow> s
      | Some dat \<Rightarrow>
          if dat = JNull then s
          else if getProp dat ''type'' = JStr ''video_frame'' then
            (let s1 = s\<lparr>videoFrame := getProp dat ''data''\<rparr>;
                 s2 = (if truthy (getProp dat ''telemetry'')
                       then s1\<lparr>telemetry := getProp dat ''telemetry''\<rparr> else s1)
             in if truthy (getProp dat ''mission_active'')
                then s2\<lparr>missionStatus :=
                       JObj [(''status'', JStr ''executing''),
                             (''message'',
                              JStr (''Waypoint '' @ toString rt (getProp dat ''waypoint'') @ ''/''
                                      @ toString rt (getProp dat ''total_waypoints''))),
                             (''waypoint'', getProp dat ''waypoint''),
                             (''total_waypoints'', getProp dat ''total_waypoints'')]\<rparr>
                else s2)
          else if getProp dat ''type'' = JStr ''mission_status'' then s\<lparr>missionStatus := dat\<rparr>
          else s)"

definition onclose :: "MissionControl \<Rightarrow> MissionControl" where
  "onclose s = s\<lparr>connected := False, ws := False\<rparr>"

subsection \<open>The button handlers\<close>

text \<open>
  \<open>connectDrone\<close> sends the request and arms a timeout of 2000 ms whose callback is
  \<open>setDroneConnected(true)\<close>; \<open>connectTimeout\<close> is that callback.
\<close>

definition connectDrone :: "MissionControl \<Rightarrow> MissionControl" where
  "connectDrone s =
     (if \<not> ws s then s
      else (wsSend (stringify (JObj [(''action'', JStr ''connect'')])) s)
             \<lparr>timeouts := timeouts s @ [nextTimerId s], nextTimerId := nextTimerId s + 1\<rparr>)"

definition connectTimeout :: "MissionControl \<Rightarrow> MissionControl" where
  "connectTimeout s = s\<lparr>droneConnected := True\<rparr>"

definition startStream :: "MissionControl \<Rightarrow> MissionControl" where
  "startStream s =
     (if \<not> ws s then s
      else (wsSend (stringify (JObj [(''action'', JStr ''start_stream'')])) s)\<lparr>streaming := True\<rparr>)"

text \<open>
  \<open>loadFieldMap\<close> at the moment the file reader delivers the text \<open>raw\<close>.
\<close>

definition loadFieldMap :: "Runtime \<Rightarrow> string \<Rightarrow> MissionControl \<Rightarrow> MissionControl" where
  "loadFieldMap rt raw s =
     (case jsonParse rt raw of None \<Rightarrow> s | Some json \<Rightarrow> s\<lparr>fieldMap := json\<rparr>)"

text \<open>
  \<open>generateFlightPath\<close> with the body \<open>dat\<close> of the answer of the planning service; the
  request goes over HTTP, not over the socket. A failed request is no event.
\<close>

definition generateFlightPath :: "jsval \<Rightarrow> MissionControl \<Rightarrow> MissionControl" where
  "generateFlightPath dat s = (if \<not> truthy (fieldMap s) then s else s\<lparr>flightPlan := dat\<rparr>)"

text \<open>\<open>executeMission\<close>; \<open>now\<close> is the decimal text of \<open>Date.now()\<close>.\<close>

definition executeMission :: "string \<Rightarrow> MissionControl \<Rightarrow> MissionControl" where
  "executeMission now s =
     (if \<not> ws s \<or> \<not> truthy (flightPlan s) then s
      else wsSend
             (stringify
                (JObj [(''action'', JStr ''execute_mission''),
                       (''mission_data'',
                        JObj [(''mission_id'', JStr (''mission_'' @ now)),
                              (''field_id'', optChain (fieldMap s) ''field_id''),
                              (''waypoints'', getProp (flightPlan s) ''waypoints''),
                              (''altitude'', JNum (altitude s))])]))
             s)"

definition emergencyStop :: "MissionControl \<Rightarrow> MissionControl" where
  "emergencyStop s =
     (if \<not> ws s then s
      else (wsSend (stringify (JObj [(''action'', JStr ''emergency_stop'')])) s)\<lparr>manualMode := False\<rparr>)"

definition takeoff :: "MissionControl \<Rightarrow> MissionControl" where
  "takeoff s = (if \<not> ws s then s else sendCommand (ws s) ''takeoff'' [] s)"

subsection \<open>The battery warning\<close>

text \<open>
  The warning block under the flight path drawing, rendered only when there is a flight
  plan: the red "Mission Impossible!" alert, the amber "High Battery Usage" alert, or
  nothing.
\<close>

datatype BatteryAlert = MissionImpossible | HighBatteryUsage | NoBatteryAlert

definition batteryAlert :: "Runtime \<Rightarrow> MissionControl \<Rightarrow> BatteryAlert" where
  "batteryAlert rt s =
     (if \<not> truthy (flightPlan s) then NoBatteryAlert
      else if greaterThan rt (getProp (flightPlan s) ''estimated_battery_pct'') 100
        then MissionImpossible
      else if greaterThan rt (getProp (flightPlan s) ''estimated_battery_pct'') 80
        then HighBatteryUsage
      else NoBatteryAlert)"

subsection \<open>Events\<close>

text \<open>
  One event is one callback of the browser: a socket callback, a key event, a timer that
  fires, or a click on a control. A click on a disabled button and a key event without
  listeners do nothing. After the handler the component renders and the keyboard effect
  runs, before the next event. The component stays mounted: unmounting, which closes the
  socket and removes the listeners, is not an event.
\<close>

datatype Event =
    SocketOpen
  | SocketMessage string
  | SocketClose
  | KeyDown string
  | KeyUp string
  | IntervalFires nat
  | TimeoutFires nat
  | ClickConnectDrone
  | ClickStartStream
  | ClickTakeoff
  | ClickManualMode
  | ClickEmergencyStop
  | ClickExecuteMission string
  | FieldMapLoaded string
  | FlightPlanGenerated jsval
  | SlideAltitude real
  | SlideOverlap real

fun handle :: "Runtime \<Rightarrow> Event \<Rightarrow> MissionControl \<Rightarrow> MissionControl" where
  "handle rt SocketOpen s =
     (if socket s = CONNECTING then onopen (s\<lparr>socket := OPEN\<rparr>) else s)"
| "handle rt (SocketMessage raw) s = (if socket s = OPEN then onmessage rt raw s else s)"
| "handle rt SocketClose s =
     (if socket s = CLOSED then s else onclose (s\<lparr>socket := CLOSED\<rparr>))"
| "handle rt (KeyDown key) s =
     (case listeners s of None \<Rightarrow> s | Some c \<Rightarrow> handleKeyDown c key s)"
| "handle rt (KeyUp key) s =
     (case listeners s of None \<Rightarrow> s | Some c \<Rightarrow> handleKeyUp key s)"
| "handle rt (IntervalFires i) s =
     (case find (\<lambda>t. timerId t = i) (intervals s) of
        None \<Rightarrow> s
      | Some t \<Rightarrow> sendManualCommands (callback t) s)"
| "handle rt (TimeoutFires i) s =
     (if i \<in> set (timeouts s) then connectTimeout (s\<lparr>timeouts := removeAll i (timeouts s)\<rparr>)
      else s)"
| "handle rt ClickConnectDrone s =
     (if \<not> connected s \<or> droneConnected s then s else connectDrone s)"
| "handle rt ClickStartStream s =
     (if \<not> droneConnected s \<or> streaming s then s else startStream s)"
| "handle rt ClickTakeoff s = (if \<not> droneConnected s then s else takeoff s)"
| "handle rt ClickManualMode s =
     (if \<not> droneConnected s then s else s\<lparr>manualMode := \<not> manualMode s\<rparr>)"
| "handle rt ClickEmergencyStop s = emergencyStop s"
| "handle rt (ClickExecuteMission now) s =
     (if \<not> droneConnected s \<or> \<not> truthy (flightPlan s) then s else executeMission now s)"
| "handle rt (FieldMapLoaded raw) s = loadFieldMap rt raw s"
| "handle rt (FlightPlanGenerated dat) s = generateFlightPath dat s"
| "handle rt (SlideAltitude a) s = s\<lparr>altitude := a\<rparr>"
| "handle rt (SlideOverlap v) s = s\<lparr>overlap := v\<rparr>"

definition controlStep :: "Runtime \<Rightarrow> Event \<Rightarrow> MissionControl \<Rightarrow> MissionControl" where
  "controlStep rt ev s = keyboardEffect s (handle rt ev s)"

fun controlRun :: "Runtime \<Rightarrow> Event list \<Rightarrow> MissionControl \<Rightarrow> MissionControl" where
  "controlRun rt [] s = s"
| "controlRun rt (ev # evs) s = controlRun rt evs (controlStep rt ev s)"

subsection \<open>Vocabulary of the properties\<close>

text \<open>
  \<open>command\<close> is the object that \<open>sendCommand\<close> serialises. \<open>controlTable\<close> lists the
  control keys in the order in which \<open>sendManualCommands\<close> tests them, each with its
  command, and \<open>manualCommands\<close> gives the commands of the keys that are held.
  \<open>objectKeys\<close> are the property names of an object. \<open>optionalField\<close> is a property as
  \<open>JSON.stringify\<close> writes it: left out when its value is \<open>undefined\<close>. A message is
  \<open>nestedMission\<close> when its only properties are \<open>action\<close> and \<open>mission_data\<close> and the
  latter has a \<open>mission_id\<close> and an \<open>altitude\<close>.
\<close>

definition command :: "string \<Rightarrow> (string \<times> jsval) list \<Rightarrow> jsval" where
  "command action params = JObj ((''action'', JStr action) # params)"

definition controlTable :: "(string \<times> jsval) list" where
  "controlTable =
     [(''w'', command ''move_forward'' [(''distance'', JNum 20)]),
      (''s'', command ''move_back'' [(''distance'', JNum 20)]),
      (''a'', command ''move_left'' [(''distance'', JNum 20)]),
      (''d'', command ''move_right'' [(''distance'', JNum 20)]),
      (''arrowup'', command ''move_up'' [(''distance'', JNum 20)]),
      (''arrowdown'', command ''move_down'' [(''distance'', JNum 20)]),
      (''arrowleft'', command ''rotate_ccw'' [(''degrees'', JNum 15)]),
      (''arrowright'', command ''rotate_cw'' [(''degrees'', JNum 15)]),
      ('' '', command ''land'' [])]"

definition manualCommands :: "string set \<Rightarrow> jsval list" where
  "manualCommands keys = concat (map (\<lambda>(k, m). if k \<in> keys then [m] else []) controlTable)"

definition objectKeys :: "jsval \<Rightarrow> string list" where
  "objectKeys v = (case v of JObj kvs \<Rightarrow> map fst kvs | _ \<Rightarrow> [])"

definition optionalField :: "string \<Rightarrow> jsval \<Rightarrow> (string \<times> jsval) list" where
  "optionalField k v = (if v = JUndefined then [] else [(k, stringify v)])"

definition nestedMission :: "jsval \<Rightarrow> bool" where
  "nestedMission m \<longleftrightarrow>
     objectKeys m = [''action'', ''mission_data''] \<and>
     ''mission_id'' \<in> set (objectKeys (getProp m ''mission_data'')) \<and>
     ''altitude'' \<in> set (objectKeys (getProp m ''mission_data''))"

definition missionShaped :: "jsval \<Rightarrow> bool" where
  "missionShaped m \<longleftrightarrow> (getProp m ''action'' = JStr ''execute_mission'' \<longrightarrow> nestedMission m)"

fun isTimeoutFires :: "Event \<Rightarrow> bool" where
  "isTimeoutFires (TimeoutFires i) = True"
| "isTimeoutFires ev = False"

text \<open>
  What holds of the page after any sequence of events. At most one interval runs; the ref
  holds its id and the key listeners are attached; its id is below the next id and its
  period is 200 ms. The state holds the socket exactly while the socket is open. Listeners
  are attached only in manual mode with the drone connected. A timer id is \<open>stale\<close> when
  it has been handed out and no running interval has it.
\<close>

definition timersOk :: "MissionControl \<Rightarrow> bool" where
  "timersOk s \<longleftrightarrow>
     list_all (\<lambda>t. intervals s = [t] \<and> controlInterval s = Some (timerId t) \<and>
                    listeners s \<noteq> None \<and> timerId t < nextTimerId s \<and> period t = 200)
       (intervals s) \<and>
     (ws s \<longleftrightarrow> socket s = OPEN)"

definition controlInv :: "MissionControl \<Rightarrow> bool" where
  "controlInv s \<longleftrightarrow>
     list_all (\<lambda>t. intervals s = [t] \<and> controlInterval s = Some (timerId t) \<and>
                    listeners s \<noteq> None \<and> timerId t < nextTimerId s \<and> period t = 200)
       (intervals s) \<and>
     (listeners s \<noteq> None \<longrightarrow> manualMode s \<and> droneConnected s) \<and>
     (ws s \<longleftrightarrow> socket s = OPEN)"

definition stale :: "nat \<Rightarrow> MissionControl \<Rightarrow> bool" where
  "stale i s \<longleftrightarrow> i < nextTimerId s \<and> list_all (\<lambda>t. timerId t \<noteq> i) (intervals s)"

text \<open>
  While the socket is still connecting, the state does not hold it, no connect timeout is
  armed and the drone does not count as connected.
\<close>

definition connectingInv :: "MissionControl \<Rightarrow> bool" where
  "connectingInv s \<longleftrightarrow>
     (socket s = CONNECTING \<longrightarrow> timeouts s = [] \<and> \<not> droneConnected s \<and> \<not> ws s)"

text \<open>
  The values that a closure keeps: the listeners and every running interval were made in a
  render in which the drone was connected, and while the state holds the socket they hold
  it too.
\<close>

definition capturedInv :: "MissionControl \<Rightarrow> bool" where
  "capturedInv s \<longleftrightarrow>
     (case listeners s of
        None \<Rightarrow> True
      | Some c \<Rightarrow> c_droneConnected c \<and> (ws s \<longrightarrow> c_ws c)) \<and>
     list_all (\<lambda>t. c_droneConnected (callback t) \<and> (ws s \<longrightarrow> c_ws (callback t))) (intervals s)"

subsection \<open>Sample runs\<close>

text \<open>
  Two message texts, and a stand-in for the engine that parses exactly these two texts
  and \<open>null\<close> as \<open>JSON.parse\<close> does and rejects every other text. A sample answer of
  the planning service with a given battery estimate. Then the page after the socket
  opened and the connect button was clicked (\<open>awaitingRun\<close>), after the connect timeout
  fired (\<open>connectedRun\<close>), after a field map was loaded and a plan generated
  (\<open>plannedRun\<close>), after the mission was started (\<open>missionRun\<close>), and in manual mode
  with two keys held (\<open>samplingRun\<close>) or one key held (\<open>heldRun\<close>), and the
  latter after the socket closed (\<open>droppedRun\<close>).
\<close>

definition sampleFieldMapText :: string where
  \<open>sampleFieldMapText = ''{"field_id":"farm_1","name":"North field"}''\<close>

definition ackText :: string where
  \<open>ackText = ''{"type":"status","status":"connected"}''\<close>

definition sampleFieldMap :: jsval where
  "sampleFieldMap = JObj [(''field_id'', JStr ''farm_1''), (''name'', JStr ''North field'')]"

definition sampleAck :: jsval where
  "sampleAck = JObj [(''type'', JStr ''status''), (''status'', JStr ''connected'')]"

definition sampleRuntime :: Runtime where
  "sampleRuntime =
     \<lparr>jsonParse = (\<lambda>raw. if raw = sampleFieldMapText then Some sampleFieldMap
                          else if raw = ackText then Some sampleAck
                          else if raw = ''null'' then Some JNull
                          else None),
      toString = (\<lambda>v. ''?''),
      coerceNumber = (\<lambda>v. None)\<rparr>"

definition samplePlan :: "real \<Rightarrow> jsval" where
  "samplePlan pct =
     JObj [(''waypoints'',
            JArr [JObj [(''x'', JNum 0), (''y'', JNum 0)], JObj [(''x'', JNum 1000), (''y'', JNum 0)]]),
           (''total_waypoints'', JNum 2),
           (''total_distance_m'', JNum 10),
           (''estimated_duration_sec'', JNum 60),
           (''estimated_battery_pct'', JNum pct),
           (''batteries_needed'', JNum 2)]"

definition awaitingRun :: MissionControl where
  "awaitingRun = controlRun sampleRuntime [SocketOpen, ClickConnectDrone] initialControl"

definition connectedRun :: MissionControl where
  "connectedRun =
     controlRun sampleRuntime [SocketOpen, ClickConnectDrone, TimeoutFires 1] initialControl"

definition plannedRun :: MissionControl where
  "plannedRun =
     controlRun sampleRuntime
       [SocketOpen, ClickConnectDrone, TimeoutFires 1, FieldMapLoaded sampleFieldMapText,
        FlightPlanGenerated (samplePlan 40)]
       initialControl"

definition missionRun :: MissionControl where
  "missionRun =
     controlRun sampleRuntime
       [SocketOpen, ClickConnectDrone, TimeoutFires 1, FieldMapLoaded sampleFieldMapText,
        FlightPlanGenerated (samplePlan 40), ClickExecuteMission ''1700000000000'']
       initialControl"

definition samplingRun :: MissionControl where
  "samplingRun =
     controlRun sampleRuntime
       [SocketOpen, ClickConnectDrone, TimeoutFires 1, ClickManualMode, KeyDown ''W'', KeyDown ''a'']
       initialControl"

definition heldRun :: MissionControl where
  "heldRun =
     controlRun sampleRuntime
       [SocketOpen, ClickConnectDrone, TimeoutFires 1, ClickManualMode, KeyDown ''w'']
       initialControl"

definition droppedRun :: MissionControl where
  "droppedRun =
     controlRun sampleRuntime
       [SocketOpen, ClickConnectDrone, TimeoutFires 1, ClickManualMode, KeyDown ''w'', SocketClose]
       initialControl"

section \<open>Properties of the mapping page\<close>

lemma foldl_area_sum:
  "foldl (\<lambda>sum x. sum + f x) (a::real) xs = a + sum_list (map f xs)"
  by (induction xs arbitrary: a) simp_all

text \<open>
  C10. The metrics of the page: the width and the length are the distances from the
  south-west corner of the pin rectangle to its south-east and to its north-west corner,
  the base area is their product, and the net area is that base area minus the summed
  areas of the obstacles and of the no-fly zones, clamped below at zero. So the net area
  is never negative, whatever the pins, obstacles and no-fly zones are.
\<close>

theorem netArea_clamped:
  "width (calculateMetrics distanceTo s) =
     distanceTo (getSouthWest (fieldBounds s))
       \<lparr>lat = lat (getSouthWest (fieldBounds s)), lng = lng (getNorthEast (fieldBounds s))\<rparr> \<and>
   length_m (calculateMetrics distanceTo s) =
     distanceTo (getSouthWest (fieldBounds s))
       \<lparr>lat = lat (getNorthEast (fieldBounds s)), lng = lng (getSouthWest (fieldBounds s))\<rparr> \<and>
   baseArea (calculateMetrics distanceTo s) = rectangleArea distanceTo (pinA s) (pinB s) \<and>
   netArea (calculateMetrics distanceTo s) =
     max (rectangleArea distanceTo (pinA s) (pinB s)
            - (sum_list (map area (obstacles s)) + sum_list (map area (noFlyZones s)))) 0 \<and>
   netArea (calculateMetrics distanceTo s) =
     max (baseArea (calculateMetrics distanceTo s)
            - (sum_list (map area (obstacles s)) + sum_list (map area (noFlyZones s)))) 0
   \<and> 0 \<le> netArea (calculateMetrics distanceTo s)"
  by (simp add: calculateMetrics_def rectangleArea_def fieldBounds_def Let_def foldl_area_sum
      algebra_simps)

theorem netArea_clamped_witness:
  "baseArea (calculateMetrics flatDistance demoMapping) = 53200 \<and>
   netArea (calculateMetrics flatDistance demoMapping) = 13200 \<and>
   netArea (calculateMetrics flatDistance
              (demoMapping\<lparr>obstacles := [\<lparr>uid = ''u2'', boundary = demoRing, area = 40000\<rparr>]\<rparr>)) = 0"
proof -
  have r: "rectangleArea flatDistance defaultPinA defaultPinB = 53200"
    by (simp add: rectangleArea_def flatDistance_def defaultPinA_def defaultPinB_def
        newLatLngBounds_def getSouthWest_def getNorthEast_def Let_def)
  show ?thesis
    using netArea_clamped [of flatDistance demoMapping]
          netArea_clamped [of flatDistance
            "demoMapping\<lparr>obstacles := [\<lparr>uid = ''u2'', boundary = demoRing, area = 40000\<rparr>]\<rparr>"]
    by (simp add: demoMapping_def r)
qed

lemma fieldBounds_upd:
  "fieldBounds (s\<lparr>obstacles := a\<rparr>) = fieldBounds s"
  "fieldBounds (s\<lparr>noFlyZones := b\<rparr>) = fieldBounds s"
  "fieldBounds (s\<lparr>obstacleStart := c\<rparr>) = fieldBounds s"
  "fieldBounds (s\<lparr>noFlyStart := c\<rparr>) = fieldBounds s"
  "fieldBounds (s\<lparr>mode := m\<rparr>) = fieldBounds s"
  "fieldBounds (s\<lparr>nextPin := n\<rparr>) = fieldBounds s"
  by (simp_all add: fieldBounds_def)

lemma corners_inside:
  assumes "contains b p" "contains b q"
  shows "ringInside b (rectangleRing p q)"
  using assms
  by (auto simp: ringInside_def rectangleRing_def contains_def newLatLngBounds_def
      getSouthWest_def getNorthEast_def toLatLng_def Let_def)

lemma rectangleRing_closed: "ringClosed (rectangleRing p q)"
  by (simp add: ringClosed_def rectangleRing_def Let_def)

lemma click_obstacle:
  assumes "mode s = ModeObstacle" "obstacleStart s = Some st" "contains (fieldBounds s) e"
  shows "click d uuid e s =
     (None, (if 1 < rectangleArea d st e
             then s\<lparr>obstacles := obstacles s @
                     [\<lparr>uid = uuid, boundary = rectangleRing st e, area = rectangleArea d st e\<rparr>]\<rparr>
             else s)\<lparr>obstacleStart := None\<rparr>)"
  using assms
  by (simp add: click_def fieldBounds_def rectangleArea_def rectangleRing_def Let_def)

lemma click_nofly:
  assumes "mode s = ModeNofly" "noFlyStart s = Some st" "contains (fieldBounds s) e"
  shows "click d uuid e s =
     (None, (if 1 < rectangleArea d st e
             then s\<lparr>noFlyZones := noFlyZones s @
                     [\<lparr>uid = uuid, boundary = rectangleRing st e, area = rectangleArea d st e,
                       reason = Some ''Safety restriction''\<rparr>]\<rparr>
             else s)\<lparr>noFlyStart := None\<rparr>)"
  using assms
  by (simp add: click_def fieldBounds_def rectangleArea_def rectangleRing_def Let_def)

lemma click_outside:
  assumes "mode s \<noteq> ModeBase" "\<not> contains (fieldBounds s) e"
  shows "click d uuid e s = (Some ''Please click inside the main rectangle.'', s)"
  using assms by (cases "mode s") (simp_all add: click_def fieldBounds_def)

lemma mapInv_click: 
  assumes "mapInv s" shows "mapInv (snd (click d uuid e s))"
proof (cases "mode s")
  case ModeBase
  with assms show ?thesis by (simp add: click_def mapInv_def)
next
  case ModeObstacle
  show ?thesis
  proof (cases "contains (fieldBounds s) e")
    case False
    with ModeObstacle show ?thesis using assms by (simp add: click_outside)
  next
    case True
    show ?thesis
    proof (cases "obstacleStart s")
      case None
      with ModeObstacle True assms show ?thesis
        by (simp add: click_def mapInv_def fieldBounds_upd flip: fieldBounds_def split: option.splits)
    next
      case (Some st)
      from assms Some have "contains (fieldBounds s) st" by (simp add: mapInv_def)
      with True have "ringInside (fieldBounds s) (rectangleRing st e)" by (simp add: corners_inside)
      with assms ModeObstacle show ?thesis
        by (simp add: click_obstacle[OF ModeObstacle Some True] mapInv_def fieldBounds_upd rectangleRing_closed split: option.splits)
    qed
  qed
next
  case ModeNofly
  show ?thesis
  proof (cases "contains (fieldBounds s) e")
    case False
    with ModeNofly show ?thesis using assms by (simp add: click_outside)
  next
    case True
    show ?thesis
    proof (cases "noFlyStart s")
      case None
      with ModeNofly True assms show ?thesis
        by (simp add: click_def mapInv_def fieldBounds_upd flip: fieldBounds_def split: option.splits)
    next
      case (Some st)
      from assms Some have "contains (fieldBounds s) st" by (simp add: mapInv_def)
      with True have "ringInside (fieldBounds s) (rectangleRing st e)" by (simp add: corners_inside)
      with assms ModeNofly show ?thesis
        by (simp add: click_nofly[OF ModeNofly Some True] mapInv_def fieldBounds_upd rectangleRing_closed split: option.splits)
    qed
  qed
qed

lemma list_all_filter: "list_all P xs \<Longrightarrow> list_all P (filter Q xs)"
  by (induction xs) simp_all

lemma mapInv_step: "mapInv s \<Longrightarrow> mapInv (mapStep d ev s)"
proof (cases ev)
  case (MapClick u e)
  assume "mapInv s" then show ?thesis using MapClick by (simp add: mapInv_click)
next
  case (RemoveObstacle i)
  assume "mapInv s" then show ?thesis using RemoveObstacle
    by (auto simp: mapInv_def fieldBounds_upd list_all_filter split: option.splits)
next
  case (RemoveNoFlyZone i)
  assume "mapInv s" then show ?thesis using RemoveNoFlyZone
    by (auto simp: mapInv_def fieldBounds_upd list_all_filter split: option.splits)
qed (auto simp: mapInv_def fieldBounds_upd split: option.splits)

lemma mapInv_run: "mapInv s \<Longrightarrow> mapInv (mapRun d evs s)"
  by (induction evs arbitrary: s) (simp_all add: mapInv_step)

lemma mapInv_initial: "mapInv initialMapping"
  by (simp add: mapInv_def initialMapping_def)

lemma obstaclePending_eq: "obstaclePending = \<lparr>pinA = defaultPinA, pinB = defaultPinB, mode = ModeObstacle, nextPin = NextA,
      obstacles = [], noFlyZones = [], obstacleStart = Some cornerP, noFlyStart = None\<rparr>"
  by (simp add: obstaclePending_def initialMapping_def click_def cornerP_def contains_def newLatLngBounds_def defaultPinA_def defaultPinB_def)

lemma noFlyPending_eq: "noFlyPending = \<lparr>pinA = defaultPinA, pinB = defaultPinB, mode = ModeNofly, nextPin = NextA,
      obstacles = [], noFlyZones = [], obstacleStart = None, noFlyStart = Some cornerP\<rparr>"
  by (simp add: noFlyPending_def initialMapping_def click_def cornerP_def contains_def newLatLngBounds_def defaultPinA_def defaultPinB_def)

lemma demoMapping_run: "demoMapping = mapRun flatDistance demoEvents initialMapping"
  by (simp add: demoMapping_def demoEvents_def demoRing_def initialMapping_def click_def cornerP_def cornerQ_def contains_def
      newLatLngBounds_def defaultPinA_def defaultPinB_def flatDistance_def getSouthWest_def getNorthEast_def Let_def)

lemma toMeters_origin: "latLngToMeters p p = (0, 0)"
  by (simp add: latLngToMeters_def toFixed_def)

lemma closedPolygon_map: "ringClosed ring \<Longrightarrow> closedPolygon (JArr (map f ring))"
  by (simp add: ringClosed_def closedPolygon_def hd_map last_map)

lemma exportedPolygons_export:
  "exportedPolygons (exportJSON timestamp s) =
     (let sw = getSouthWest (fieldBounds s); ne = getNorthEast (fieldBounds s);
          nw = \<lparr>lat = lat ne, lng = lng sw\<rparr>; se = \<lparr>lat = lat sw, lng = lng ne\<rparr>;
          toMeters = (\<lambda>ring. JArr (map (\<lambda>p. point (latLngToMeters p sw)) ring))
      in map toMeters
           ([sw, se, ne, nw, sw]
              # map (\<lambda>ob. map toLatLng (boundary ob)) (obstacles s)
              @ map (\<lambda>z. map toLatLng (boundary z)) (noFlyZones s)))"
  by (simp add: exportedPolygons_def exportJSON_def getProp_def elements_def Let_def
      fieldBounds_def toMeters_origin toLatLng_def o_def)

text \<open>
  C8. A candidate region is the rectangle between a pending first corner and a second
  click inside the field rectangle. In obstacle mode the candidate is appended to the
  obstacle list exactly when its area exceeds one square metre, and a candidate of at most
  one square metre leaves the list as it was; the no-fly branch does the same with the
  no-fly list. Neither branch touches the other list. After any sequence of user actions
  every stored obstacle and every stored no-fly zone has an area above one square metre.
\<close>

theorem small_regions_discarded:
  "(mode s = ModeObstacle \<and> obstacleStart s = Some st \<and> contains (fieldBounds s) e \<longrightarrow>
      obstacles (snd (click distanceTo uuid e s)) =
        (if rectangleArea distanceTo st e \<le> 1 then obstacles s
         else obstacles s @
                [\<lparr>uid = uuid, boundary = rectangleRing st e, area = rectangleArea distanceTo st e\<rparr>])
      \<and> noFlyZones (snd (click distanceTo uuid e s)) = noFlyZones s) \<and>
   (mode s = ModeNofly \<and> noFlyStart s = Some st \<and> contains (fieldBounds s) e \<longrightarrow>
      noFlyZones (snd (click distanceTo uuid e s)) =
        (if rectangleArea distanceTo st e \<le> 1 then noFlyZones s
         else noFlyZones s @
                [\<lparr>uid = uuid, boundary = rectangleRing st e, area = rectangleArea distanceTo st e,
                  reason = Some ''Safety restriction''\<rparr>])
      \<and> obstacles (snd (click distanceTo uuid e s)) = obstacles s) \<and>
   list_all (\<lambda>ob. 1 < area ob) (obstacles (mapRun distanceTo evs initialMapping)) \<and>
   list_all (\<lambda>z. 1 < area z) (noFlyZones (mapRun distanceTo evs initialMapping))"
proof -
  have inv: "mapInv (mapRun distanceTo evs initialMapping)"
    by (rule mapInv_run) (rule mapInv_initial)
  have a: "list_all (\<lambda>ob. 1 < area ob) (obstacles (mapRun distanceTo evs initialMapping))"
    using inv by (simp add: mapInv_def list_all_iff)
  have b: "list_all (\<lambda>z. 1 < area z) (noFlyZones (mapRun distanceTo evs initialMapping))"
    using inv by (simp add: mapInv_def list_all_iff)
  show ?thesis using a b by (auto simp: click_obstacle click_nofly)
qed

theorem small_regions_discarded_witness:
  "mode obstaclePending = ModeObstacle \<and> obstacleStart obstaclePending = Some cornerP \<and>
   contains (fieldBounds obstaclePending) cornerQ \<and> contains (fieldBounds obstaclePending) cornerP \<and>
   rectangleArea flatDistance cornerP cornerQ = 20000 \<and> rectangleArea flatDistance cornerP cornerP = 0 \<and>
   obstacles (snd (click flatDistance ''u2'' cornerQ obstaclePending)) =
     [\<lparr>uid = ''u2'',
       boundary = [(36.737, - 119.785), (36.737, - 119.783), (36.738, - 119.783),
                   (36.738, - 119.785), (36.737, - 119.785)],
       area = 20000\<rparr>] \<and>
   obstacles (snd (click flatDistance ''u2'' cornerP obstaclePending)) = [] \<and>
   mode noFlyPending = ModeNofly \<and> noFlyStart noFlyPending = Some cornerP \<and>
   contains (fieldBounds noFlyPending) cornerQ \<and> contains (fieldBounds noFlyPending) cornerP \<and>
   noFlyZones (snd (click flatDistance ''u2'' cornerQ noFlyPending)) =
     [\<lparr>uid = ''u2'',
       boundary = [(36.737, - 119.785), (36.737, - 119.783), (36.738, - 119.783),
                   (36.738, - 119.785), (36.737, - 119.785)],
       area = 20000, reason = Some ''Safety restriction''\<rparr>] \<and>
   noFlyZones (snd (click flatDistance ''u2'' cornerP noFlyPending)) = []"
proof -
  have h: "contains (fieldBounds obstaclePending) cornerQ" "contains (fieldBounds obstaclePending) cornerP"
          "contains (fieldBounds noFlyPending) cornerQ" "contains (fieldBounds noFlyPending) cornerP"
    by (simp_all add: obstaclePending_eq noFlyPending_eq fieldBounds_def contains_def newLatLngBounds_def
          defaultPinA_def defaultPinB_def cornerP_def cornerQ_def)
  have a: "rectangleArea flatDistance cornerP cornerQ = 20000" "rectangleArea flatDistance cornerP cornerP = 0"
    by (simp_all add: rectangleArea_def flatDistance_def cornerP_def cornerQ_def newLatLngBounds_def
          getSouthWest_def getNorthEast_def Let_def)
  have r: "rectangleRing cornerP cornerQ = [(36.737, - 119.785), (36.737, - 119.783), (36.738, - 119.783),
                   (36.738, - 119.785), (36.737, - 119.785)]"
    by (simp add: rectangleRing_def cornerP_def cornerQ_def newLatLngBounds_def
          getSouthWest_def getNorthEast_def Let_def)
  have m: "mode obstaclePending = ModeObstacle" "obstacleStart obstaclePending = Some cornerP" "obstacles obstaclePending = []"
          "mode noFlyPending = ModeNofly" "noFlyStart noFlyPending = Some cornerP" "noFlyZones noFlyPending = []"
    by (simp_all add: obstaclePending_eq noFlyPending_eq)
  show ?thesis
    using small_regions_discarded [of obstaclePending cornerP cornerQ flatDistance "''u2''" "[]"]
          small_regions_discarded [of obstaclePending cornerP cornerP flatDistance "''u2''" "[]"]
          small_regions_discarded [of noFlyPending cornerP cornerQ flatDistance "''u2''" "[]"]
          small_regions_discarded [of noFlyPending cornerP cornerP flatDistance "''u2''" "[]"]
    by (simp add: h a r m)
qed

text \<open>
  C9. After any sequence of user actions, every point of every stored obstacle and of every
  stored no-fly zone lies in the rectangle spanned by the two pins. A click outside that
  rectangle, in obstacle or no-fly mode, raises the alert and returns the state unchanged.
\<close>

theorem regions_inside_boundary:
  assumes "s = mapRun distanceTo evs initialMapping"
  shows "list_all (\<lambda>ob. ringInside (fieldBounds s) (boundary ob)) (obstacles s) \<and>
         list_all (\<lambda>z. ringInside (fieldBounds s) (boundary z)) (noFlyZones s) \<and>
         (mode s \<noteq> ModeBase \<and> \<not> contains (fieldBounds s) e \<longrightarrow>
            click distanceTo uuid e s = (Some ''Please click inside the main rectangle.'', s))"
proof -
  have inv: "mapInv s"
    unfolding assms by (rule mapInv_run) (rule mapInv_initial)
  have a: "list_all (\<lambda>ob. ringInside (fieldBounds s) (boundary ob)) (obstacles s)"
    using inv by (simp add: mapInv_def list_all_iff)
  have b: "list_all (\<lambda>z. ringInside (fieldBounds s) (boundary z)) (noFlyZones s)"
    using inv by (simp add: mapInv_def list_all_iff)
  show ?thesis using a b by (simp add: click_outside)
qed

theorem regions_inside_boundary_witness:
  "demoMapping = mapRun flatDistance demoEvents initialMapping \<and>
   obstacles demoMapping = [\<lparr>uid = ''u2'', boundary = demoRing, area = 20000\<rparr>] \<and>
   noFlyZones demoMapping = [\<lparr>uid = ''u4'', boundary = demoRing, area = 20000, reason = Some ''Safety restriction''\<rparr>] \<and>
   ringInside (fieldBounds demoMapping) demoRing \<and>
   mode demoMapping \<noteq> ModeBase \<and> \<not> contains (fieldBounds demoMapping) outsideP \<and>
   click flatDistance ''u5'' outsideP demoMapping = (Some ''Please click inside the main rectangle.'', demoMapping)"
proof -
  have out: "\<not> contains (fieldBounds demoMapping) outsideP"
    by (simp add: demoMapping_def fieldBounds_def contains_def newLatLngBounds_def defaultPinA_def
          defaultPinB_def outsideP_def)
  have m: "mode demoMapping \<noteq> ModeBase" by (simp add: demoMapping_def)
  show ?thesis
    using regions_inside_boundary [OF demoMapping_run, of outsideP "''u5''"] out m
    by (simp add: demoMapping_run [symmetric]) (simp add: demoMapping_def)
qed

text \<open>
  Bounds on \<open>\<pi>\<close> from the Taylor polynomial of the sine at two points around \<open>\<pi> / 6\<close>,
  for computing the metres of sample points; and the distance between a number and its
  rounding.
\<close>

lemma sum_upto_8: "(\<Sum>m<8. f m) = f 0 + f 1 + f 2 + f 3 + f 4 + f 5 + f 6 + (f 7 :: real)" for f :: "nat \<Rightarrow> real"
  by (simp add: eval_nat_numeral)

lemma sin_coeffs:
  "sin_coeff 0 = 0" "sin_coeff 1 = 1" "sin_coeff 2 = 0" "sin_coeff 3 = - 1 / 6"
  "sin_coeff 4 = 0" "sin_coeff 5 = 1 / 120" "sin_coeff 6 = 0" "sin_coeff 7 = - 1 / 5040"
  by (simp_all add: sin_coeff_def fact_numeral)

lemma sin_taylor:
  "\<bar>sin x - (x - x ^ 3 / 6 + x ^ 5 / 120 - x ^ 7 / 5040)\<bar> \<le> \<bar>x\<bar> ^ 8 / 40320" for x :: real
proof -
  have s: "(\<Sum>m<8. sin_coeff m * x ^ m) = x - x ^ 3 / 6 + x ^ 5 / 120 - x ^ 7 / 5040"
    unfolding sum_upto_8 sin_coeffs by simp
  have f: "inverse (fact 8 :: real) = 1 / 40320"
    by (simp add: fact_numeral)
  show ?thesis
    using Maclaurin_sin_bound [of x 8] unfolding s f by simp
qed

lemma sin_between:
  "sin x \<le> (x - x ^ 3 / 6 + x ^ 5 / 120 - x ^ 7 / 5040) + \<bar>x\<bar> ^ 8 / 40320"
  "(x - x ^ 3 / 6 + x ^ 5 / 120 - x ^ 7 / 5040) - \<bar>x\<bar> ^ 8 / 40320 \<le> sin x" for x :: real
  using sin_taylor [of x] by linarith+

lemma pi_bounds: "3.141516 < pi" "pi < 3.14163"
proof -
  have "sin (0.523586 :: real) \<le> 0.499999"
    by (rule order_trans [OF sin_between(1)]) (simp add: power_divide)
  then have lo: "sin (0.523586 :: real) < 1 / 2" by simp
  have "(0.500001 :: real) \<le> sin 0.523605"
    by (rule order_trans [OF _ sin_between(2)]) (simp add: power_divide)
  then have hi: "1 / 2 < sin (0.523605 :: real)" by simp
  have r: "- (pi / 2) \<le> pi / 6" "pi / 6 \<le> pi / 2" by simp_all
  have a: "- (pi / 2) \<le> (0.523586::real)" "(0.523586::real) \<le> pi / 2"
          "- (pi / 2) \<le> (0.523605::real)" "(0.523605::real) \<le> pi / 2"
    using pi_ge_two by simp_all
  from lo have "sin (0.523586 :: real) < sin (pi / 6)" by (simp add: sin_30)
  then have "(0.523586 :: real) < pi / 6"
    using sin_mono_less_eq [OF a(1) a(2) r] by simp
  then show "3.141516 < pi" by simp
  from hi have "sin (pi / 6) < sin (0.523605 :: real)" by (simp add: sin_30)
  then have "pi / 6 < (0.523605 :: real)"
    using sin_mono_less_eq [OF r a(3) a(4)] by simp
  then show "pi < 3.14163" by simp
qed

lemma toFixed_near: "\<bar>toFixed d x - x\<bar> \<le> 1 / (2 * 10 ^ d)"
proof -
  have pos: "(0::real) < 10 ^ d" by simp
  have fl: "\<bar>of_int \<lfloor>y + 1 / 2\<rfloor> - y\<bar> \<le> 1 / 2" for y :: real
    by linarith
  show ?thesis
  proof (cases "x < 0")
    case True
    have "toFixed d x - x = - ((of_int \<lfloor>(- x) * 10 ^ d + 1 / 2\<rfloor> - (- x) * 10 ^ d) / 10 ^ d)"
      using True pos by (simp add: toFixed_def field_simps)
    then have "\<bar>toFixed d x - x\<bar> = \<bar>of_int \<lfloor>(- x) * 10 ^ d + 1 / 2\<rfloor> - (- x) * 10 ^ d\<bar> / 10 ^ d"
      by (simp add: abs_divide)
    also have "\<dots> \<le> (1 / 2) / 10 ^ d"
      using fl [of "(- x) * 10 ^ d"] pos by (intro divide_right_mono) simp_all
    finally show ?thesis by simp
  next
    case False
    have "toFixed d x - x = (of_int \<lfloor>x * 10 ^ d + 1 / 2\<rfloor> - x * 10 ^ d) / 10 ^ d"
      using False pos by (simp add: toFixed_def field_simps)
    then have "\<bar>toFixed d x - x\<bar> = \<bar>of_int \<lfloor>x * 10 ^ d + 1 / 2\<rfloor> - x * 10 ^ d\<bar> / 10 ^ d"
      by (simp add: abs_divide)
    also have "\<dots> \<le> (1 / 2) / 10 ^ d"
      using fl [of "x * 10 ^ d"] pos by (intro divide_right_mono) simp_all
    finally show ?thesis by simp
  qed
qed

lemma latLngToMeters_metres:
  "\<bar>fst (latLngToMeters p origin)
      - 6371000 * ((lng p - lng origin) * pi / 180)
          * cos ((lat origin * pi / 180 + lat p * pi / 180) / 2)\<bar> \<le> 1 / 200 \<and>
   \<bar>snd (latLngToMeters p origin) - 6371000 * ((lat p - lat origin) * pi / 180)\<bar> \<le> 1 / 200"
proof -
  define x where "x = 6371000 * ((lng p - lng origin) * pi / 180)
          * cos ((lat origin * pi / 180 + lat p * pi / 180) / 2)"
  define y where "y = 6371000 * ((lat p - lat origin) * pi / 180)"
  have "latLngToMeters p origin = (toFixed 2 x, toFixed 2 y)"
    unfolding latLngToMeters_def Let_def x_def y_def by (rule refl)
  then show ?thesis
    unfolding x_def [symmetric] y_def [symmetric]
    using toFixed_near [of 2 x] toFixed_near [of 2 y] by simp
qed

lemma north_value: "toFixed 2 (6371000 * ((36.7386 - 36.7367) * pi / 180)) = 211.27"
proof -
  define y :: real where "y = 6371000 * ((36.7386 - 36.7367) * pi / 180)"
  have y: "y = 12104.9 * pi / 180" by (simp add: y_def)
  have pos: "\<not> y < 0" by (simp add: y)
  have "\<lfloor>y * 10 ^ 2 + 1 / 2\<rfloor> = 21127"
    unfolding floor_eq_iff using pi_bounds by (simp add: y)
  then have "toFixed 2 y = 211.27"
    using pos by (simp add: toFixed_def)
  then show ?thesis by (simp only: y_def)
qed

lemma latLngToMeters_north:
  "snd (latLngToMeters p origin) = toFixed 2 (6371000 * ((lat p - lat origin) * pi / 180))"
  by (simp only: latLngToMeters_def Let_def snd_conv)

lemma latLngToMeters_east:
  "fst (latLngToMeters p origin) =
     toFixed 2 (6371000 * ((lng p - lng origin) * pi / 180)
                  * cos ((lat origin * pi / 180 + lat p * pi / 180) / 2))"
  by (simp only: latLngToMeters_def Let_def fst_conv)

lemma north_metres:
  "snd (latLngToMeters \<lparr>lat = 36.7386, lng = b\<rparr> \<lparr>lat = 36.7367, lng = c\<rparr>) = 211.27"
  by (simp only: latLngToMeters_north LatLng.select_convs north_value)

lemma same_latitude: "snd (latLngToMeters \<lparr>lat = a, lng = b\<rparr> \<lparr>lat = a, lng = c\<rparr>) = 0"
  by (simp add: latLngToMeters_north toFixed_def)

lemma same_longitude: "fst (latLngToMeters \<lparr>lat = a, lng = c\<rparr> \<lparr>lat = b, lng = c\<rparr>) = 0"
  by (simp add: latLngToMeters_east toFixed_def)

text \<open>
  C5. For the page after any sequence of user actions, the exported field map holds the
  field boundary, every obstacle and every no-fly zone as the image, under
  \<open>latLngToMeters\<close> with the south-west corner of the field rectangle as origin, of
  their latitude and longitude rings. For every point, the first coordinate that
  \<open>latLngToMeters\<close> gives is, to half a centimetre, the arc length eastward from the
  corner along the parallel of the mean latitude on a sphere of radius 6371000 m, and the
  second is, to half a centimetre, the arc length northward along the meridian; the
  south-west corner itself maps to \<open>(0, 0)\<close>. The reference point is the south-west corner
  written with six decimals, so within half a millionth of a degree of it. Every exported
  polygon is closed, its last point repeating its first.
\<close>

theorem export_frame:
  assumes "s = mapRun distanceTo evs initialMapping"
  shows "let sw = getSouthWest (fieldBounds s); ne = getNorthEast (fieldBounds s);
             nw = \<lparr>lat = lat ne, lng = lng sw\<rparr>; se = \<lparr>lat = lat sw, lng = lng ne\<rparr>;
             toMeters = (\<lambda>ring. JArr (map (\<lambda>p. point (latLngToMeters p sw)) ring));
             j = exportJSON timestamp s
         in latLngToMeters sw sw = (0, 0) \<and>
            exportedPolygons j =
              map toMeters
                ([sw, se, ne, nw, sw]
                   # map (\<lambda>ob. map toLatLng (boundary ob)) (obstacles s)
                   @ map (\<lambda>z. map toLatLng (boundary z)) (noFlyZones s)) \<and>
            getProp j ''reference_point'' =
              JObj [(''lat'', JNum (toFixed 6 (lat sw))), (''lon'', JNum (toFixed 6 (lng sw)))] \<and>
            list_all closedPolygon (exportedPolygons j) \<and>
            \<bar>fst (latLngToMeters p sw)
               - 6371000 * ((lng p - lng sw) * pi / 180)
                   * cos ((lat sw * pi / 180 + lat p * pi / 180) / 2)\<bar> \<le> 1 / 200 \<and>
            \<bar>snd (latLngToMeters p sw) - 6371000 * ((lat p - lat sw) * pi / 180)\<bar> \<le> 1 / 200 \<and>
            \<bar>toFixed 6 (lat sw) - lat sw\<bar> \<le> 1 / 2000000 \<and>
            \<bar>toFixed 6 (lng sw) - lng sw\<bar> \<le> 1 / 2000000"
proof -
  have inv: "mapInv s"
    unfolding assms by (rule mapInv_run) (rule mapInv_initial)
  have ob: "\<And>ob. ob \<in> set (obstacles s) \<Longrightarrow> ringClosed (boundary ob)"
    using inv by (simp add: mapInv_def list_all_iff)
  have nf: "\<And>z. z \<in> set (noFlyZones s) \<Longrightarrow> ringClosed (boundary z)"
    using inv by (simp add: mapInv_def list_all_iff)
  have closed: "list_all closedPolygon (exportedPolygons (exportJSON timestamp s))"
    unfolding exportedPolygons_export Let_def
    using ob nf
    by (auto simp: list_all_iff closedPolygon_def ringClosed_def hd_map last_map)
  have ref: "getProp (exportJSON timestamp s) ''reference_point'' =
       JObj [(''lat'', JNum (toFixed 6 (lat (getSouthWest (fieldBounds s))))),
             (''lon'', JNum (toFixed 6 (lng (getSouthWest (fieldBounds s)))))]"
    by (simp add: exportJSON_def getProp_def Let_def fieldBounds_def)
  have six: "\<bar>toFixed 6 x - x\<bar> \<le> 1 / 2000000" for x
    using toFixed_near [of 6 x] by simp
  show ?thesis
    using closed ref exportedPolygons_export [of timestamp s]
      latLngToMeters_metres [of p "getSouthWest (fieldBounds s)"] six
    by (simp add: Let_def toMeters_origin)
qed

theorem export_frame_witness:
  "demoMapping = mapRun flatDistance demoEvents initialMapping \<and>
   getSouthWest (fieldBounds demoMapping) = \<lparr>lat = 36.7367, lng = - 119.7851\<rparr> \<and>
   getNorthEast (fieldBounds demoMapping) = \<lparr>lat = 36.7386, lng = - 119.7823\<rparr> \<and>
   latLngToMeters \<lparr>lat = 36.7367, lng = - 119.7851\<rparr> \<lparr>lat = 36.7367, lng = - 119.7851\<rparr> = (0, 0) \<and>
   latLngToMeters \<lparr>lat = 36.7386, lng = - 119.7851\<rparr> \<lparr>lat = 36.7367, lng = - 119.7851\<rparr> = (0, 211.27) \<and>
   snd (latLngToMeters \<lparr>lat = 36.7367, lng = - 119.7823\<rparr> \<lparr>lat = 36.7367, lng = - 119.7851\<rparr>) = 0 \<and>
   snd (latLngToMeters \<lparr>lat = 36.7386, lng = - 119.7823\<rparr> \<lparr>lat = 36.7367, lng = - 119.7851\<rparr>) = 211.27 \<and>
   \<bar>fst (latLngToMeters \<lparr>lat = 36.7367, lng = - 119.7823\<rparr> \<lparr>lat = 36.7367, lng = - 119.7851\<rparr>)
      - 6371000 * ((- 119.7823 - - 119.7851) * pi / 180)
          * cos ((36.7367 * pi / 180 + 36.7367 * pi / 180) / 2)\<bar> \<le> 1 / 200 \<and>
   getProp (exportJSON ''20260101T000000'' demoMapping) ''reference_point'' =
     JObj [(''lat'', JNum 36.7367), (''lon'', JNum (- 119.7851))] \<and>
   length (exportedPolygons (exportJSON ''20260101T000000'' demoMapping)) = 3 \<and>
   hd (exportedPolygons (exportJSON ''20260101T000000'' demoMapping)) =
     JArr [point (0, 0),
           point (latLngToMeters \<lparr>lat = 36.7367, lng = - 119.7823\<rparr> \<lparr>lat = 36.7367, lng = - 119.7851\<rparr>),
           point (latLngToMeters \<lparr>lat = 36.7386, lng = - 119.7823\<rparr> \<lparr>lat = 36.7367, lng = - 119.7851\<rparr>),
           point (0, 211.27),
           point (0, 0)] \<and>
   list_all closedPolygon (exportedPolygons (exportJSON ''20260101T000000'' demoMapping))"
proof -
  have sw: "getSouthWest (fieldBounds demoMapping) = \<lparr>lat = 36.7367, lng = - 119.7851\<rparr>"
    and ne: "getNorthEast (fieldBounds demoMapping) = \<lparr>lat = 36.7386, lng = - 119.7823\<rparr>"
    by (simp_all add: fieldBounds_def demoMapping_def newLatLngBounds_def getSouthWest_def
        getNorthEast_def defaultPinA_def defaultPinB_def)
  have six: "toFixed 6 36.7367 = 36.7367" "toFixed 6 (- 119.7851) = - 119.7851"
    by (simp_all add: toFixed_def)
  have nw: "latLngToMeters \<lparr>lat = 36.7386, lng = - 119.7851\<rparr> \<lparr>lat = 36.7367, lng = - 119.7851\<rparr>
      = (0, 211.27)"
    using same_longitude [of "36.7386" "- 119.7851" "36.7367"]
          north_metres [of "- 119.7851" "- 119.7851"]
    by (simp add: prod_eq_iff)
  note th = export_frame [OF demoMapping_run, where timestamp = "''20260101T000000''"
      and p = "\<lparr>lat = 36.7367, lng = - 119.7823\<rparr>", unfolded Let_def sw ne]
  note rest = th [THEN conjunct2]
  note polys = rest [THEN conjunct1]
  note ref = rest [THEN conjunct2, THEN conjunct1, unfolded LatLng.select_convs six]
  note closed = rest [THEN conjunct2, THEN conjunct2, THEN conjunct1]
  note east = rest [THEN conjunct2, THEN conjunct2, THEN conjunct2, THEN conjunct1,
      unfolded LatLng.select_convs]
  have hd: "hd (exportedPolygons (exportJSON ''20260101T000000'' demoMapping)) =
     JArr [point (0, 0),
           point (latLngToMeters \<lparr>lat = 36.7367, lng = - 119.7823\<rparr> \<lparr>lat = 36.7367, lng = - 119.7851\<rparr>),
           point (latLngToMeters \<lparr>lat = 36.7386, lng = - 119.7823\<rparr> \<lparr>lat = 36.7367, lng = - 119.7851\<rparr>),
           point (0, 211.27),
           point (0, 0)]"
    unfolding polys by (simp only: list.sel list.map LatLng.select_convs nw toMeters_origin)
  have len: "length (exportedPolygons (exportJSON ''20260101T000000'' demoMapping)) = 3"
    unfolding polys by (simp add: demoMapping_def)
  show ?thesis
    using demoMapping_run sw ne nw toMeters_origin
      same_latitude [of "36.7367" "- 119.7823" "- 119.7851"]
      north_metres [of "- 119.7823" "- 119.7851"] east ref len hd closed
    by blast
qed

section \<open>Properties of the mission control page\<close>

lemma stringify_command:
  "stringify (command a []) = command a []"
  "stringify (command a [(k, JNum n)]) = command a [(k, JNum n)]"
  by (simp_all add: command_def)

lemma cond_send:
  "(if b then sendCommand True a [(k, JNum n)] (s\<lparr>sent := sent s @ pre\<rparr>) else s\<lparr>sent := sent s @ pre\<rparr>) =
     s\<lparr>sent := sent s @ pre @
            (if socket s = OPEN then (if b then [command a [(k, JNum n)]] else []) else [])\<rparr>"
  by (simp add: sendCommand_def wsSend_def command_def)

lemma sendManualCommands_eq:
  "sendManualCommands c s =
     (if \<not> c_ws c \<or> \<not> c_droneConnected c then s
      else s\<lparr>sent := sent s @ (if socket s = OPEN then manualCommands (keysPressed s) else []),
             manualMode := (if '' '' \<in> keysPressed s then False else manualMode s)\<rparr>)"
proof (cases "c_ws c \<and> c_droneConnected c")
  case False
  then show ?thesis by (auto simp: sendManualCommands_def)
next
  case True
  then have w: "c_ws c = True" "c_droneConnected c = True" by simp_all
  define keys where "keys = keysPressed s"
  define s0 where "s0 = s\<lparr>sent := sent s @ []\<rparr>"
  define s1 where "s1 = (if ''w'' \<in> keys then sendCommand True ''move_forward'' [(''distance'', JNum 20)] s0 else s0)"
  define s2 where "s2 = (if ''s'' \<in> keys then sendCommand True ''move_back'' [(''distance'', JNum 20)] s1 else s1)"
  define s3 where "s3 = (if ''a'' \<in> keys then sendCommand True ''move_left'' [(''distance'', JNum 20)] s2 else s2)"
  define s4 where "s4 = (if ''d'' \<in> keys then sendCommand True ''move_right'' [(''distance'', JNum 20)] s3 else s3)"
  define s5 where "s5 = (if ''arrowup'' \<in> keys then sendCommand True ''move_up'' [(''distance'', JNum 20)] s4 else s4)"
  define s6 where "s6 = (if ''arrowdown'' \<in> keys then sendCommand True ''move_down'' [(''distance'', JNum 20)] s5 else s5)"
  define s7 where "s7 = (if ''arrowleft'' \<in> keys then sendCommand True ''rotate_ccw'' [(''degrees'', JNum 15)] s6 else s6)"
  define s8 where "s8 = (if ''arrowright'' \<in> keys then sendCommand True ''rotate_cw'' [(''degrees'', JNum 15)] s7 else s7)"
  have start: "s0 = s" by (simp add: s0_def)
  have e: "sendManualCommands c s =
      (if '' '' \<in> keys then (sendCommand True ''land'' [] s8)\<lparr>manualMode := False\<rparr> else s8)"
    unfolding sendManualCommands_def w s8_def s7_def s6_def s5_def s4_def s3_def s2_def s1_def
      start keys_def Let_def
    by simp
  note r1 = s1_def [unfolded s0_def cond_send]
  note r2 = s2_def [unfolded r1 cond_send]
  note r3 = s3_def [unfolded r2 cond_send]
  note r4 = s4_def [unfolded r3 cond_send]
  note r5 = s5_def [unfolded r4 cond_send]
  note r6 = s6_def [unfolded r5 cond_send]
  note r7 = s7_def [unfolded r6 cond_send]
  note r8 = s8_def [unfolded r7 cond_send]
  have cmds: "socket s = OPEN \<Longrightarrow> '' '' \<notin> keys \<Longrightarrow> sent s8 = sent s @ manualCommands keys"
    unfolding r8 by (simp add: manualCommands_def controlTable_def)
  have cmds': "socket s = OPEN \<Longrightarrow> '' '' \<in> keys \<Longrightarrow>
      sent s8 @ [command ''land'' []] = sent s @ manualCommands keys"
    unfolding r8 by (simp add: manualCommands_def controlTable_def)
  have closed: "socket s \<noteq> OPEN \<Longrightarrow> s8 = s"
    unfolding r8 by simp
  have rest: "s8 = s\<lparr>sent := sent s8\<rparr>"
    unfolding r8 by simp
  have sock: "socket s8 = socket s"
    unfolding r8 by simp
  have land: "sendCommand True ''land'' [] s8 =
      s8\<lparr>sent := sent s8 @ (if socket s = OPEN then [command ''land'' []] else [])\<rparr>"
    by (simp add: sendCommand_def wsSend_def command_def sock)
  show ?thesis
  proof (cases "socket s = OPEN")
    case op: True
    show ?thesis
    proof (cases "'' '' \<in> keys")
      case sp: True
      have "sendManualCommands c s = s8\<lparr>sent := sent s @ manualCommands keys, manualMode := False\<rparr>"
        by (simp add: e sp land op cmds' [OF op sp])
      also have "\<dots> = s\<lparr>sent := sent s @ manualCommands keys, manualMode := False\<rparr>"
        by (subst rest) simp
      finally show ?thesis using True op sp by (simp add: keys_def)
    next
      case sp: False
      have "sendManualCommands c s = s8" by (simp add: e sp)
      also have "\<dots> = s\<lparr>sent := sent s @ manualCommands keys\<rparr>"
        by (subst rest) (simp add: cmds [OF op sp])
      finally show ?thesis using True op sp by (simp add: keys_def)
    qed
  next
    case cl: False
    have "sendManualCommands c s = (if '' '' \<in> keys then s\<lparr>manualMode := False\<rparr> else s)"
      by (simp add: e cl closed [OF cl] sendCommand_def wsSend_def)
    then show ?thesis using True cl by (simp add: keys_def)
  qed
qed

lemmas handler_defs =
  onopen_def onclose_def onmessage_def connectDrone_def connectTimeout_def startStream_def
  loadFieldMap_def generateFlightPath_def executeMission_def emergencyStop_def takeoff_def
  sendCommand_def wsSend_def handleKeyDown_def handleKeyUp_def clearInterval_def

lemma controlInv_alt:
  "controlInv s \<longleftrightarrow> timersOk s \<and> (listeners s \<noteq> None \<longrightarrow> manualMode s \<and> droneConnected s)"
  by (auto simp: controlInv_def timersOk_def list_all_iff)

lemma controlInv_initial: "controlInv initialControl"
  by (simp add: controlInv_def initialControl_def)

lemma effect_inv:
  assumes "timersOk s" "listeners s \<noteq> None \<longrightarrow> manualMode b \<and> droneConnected b"
  shows "controlInv (keyboardEffect b s)"
  using assms
  by (auto simp: keyboardEffect_def controlInv_alt timersOk_def list_all_iff clearInterval_def Let_def
      split: option.splits list.splits)

lemma handle_listeners: "listeners (handle rt ev s) = listeners s"
  by (cases ev)
    (simp_all add: handler_defs sendManualCommands_eq Let_def split: option.splits)

lemma timersOk_sent [simp]: "timersOk (s\<lparr>sent := x\<rparr>) = timersOk s"
  by (simp add: timersOk_def list_all_iff)

lemma keyDown_timersOk:
  assumes "timersOk s" "listeners s = Some c"
  shows "timersOk (handleKeyDown c key s)"
  using assms
  by (auto simp: timersOk_def list_all_iff handleKeyDown_def Let_def split: option.splits list.splits)

lemma keyUp_timersOk:
  assumes "timersOk s"
  shows "timersOk (handleKeyUp key s)"
  using assms
  by (auto simp: timersOk_def list_all_iff handleKeyUp_def clearInterval_def Let_def
      split: option.splits list.splits)

lemma handle_timersOk:
  assumes "timersOk s"
  shows "timersOk (handle rt ev s)"
proof (cases ev)
  case (KeyDown k)
  then show ?thesis using assms by (simp add: keyDown_timersOk split: option.splits)
next
  case (KeyUp k)
  then show ?thesis using assms by (simp add: keyUp_timersOk split: option.splits)
next
  case (IntervalFires i)
  then show ?thesis using assms
    by (simp add: sendManualCommands_eq timersOk_def list_all_iff split: option.splits)
next
  case (SocketMessage raw)
  then show ?thesis using assms
    by (simp add: onmessage_def timersOk_def list_all_iff Let_def split: option.splits)
next
  case ClickConnectDrone
  then show ?thesis using assms
    by (auto simp: connectDrone_def wsSend_def timersOk_def list_all_iff)
qed (use assms in \<open>simp_all add: handler_defs timersOk_def list_all_iff split: option.splits\<close>)

lemma controlInv_step:
  assumes "controlInv s"
  shows "controlInv (controlStep rt ev s)"
  unfolding controlStep_def
  using assms by (intro effect_inv handle_timersOk) (simp_all add: controlInv_alt handle_listeners)

lemma controlInv_run: "controlInv s \<Longrightarrow> controlInv (controlRun rt evs s)"
  by (induction evs arbitrary: s) (simp_all add: controlInv_step)

lemma connectedRun_eq:
  "connectedRun = initialControl\<lparr>ws := True, connected := True, droneConnected := True,
      socket := OPEN, sent := [command ''connect'' []], nextTimerId := 2\<rparr>"
  by (simp add: connectedRun_def initialControl_def controlStep_def keyboardEffect_def
      handler_defs command_def)

lemma sample_parse:
  "jsonParse sampleRuntime ackText = Some sampleAck"
  "jsonParse sampleRuntime sampleFieldMapText = Some sampleFieldMap"
  "jsonParse sampleRuntime ''{bad'' = None"
  by (simp_all add: sampleRuntime_def ackText_def sampleFieldMapText_def)

text \<open>
  C1, as stated, fails: after the socket opened and the connect request was sent, the drone
  is not yet connected; the timeout alone, with no message received, makes it connected;
  and a received acknowledgment does not.
\<close>

theorem handshake_counterexample:
  "\<not> droneConnected (controlRun sampleRuntime [SocketOpen, ClickConnectDrone] initialControl) \<and>
   droneConnected (controlRun sampleRuntime [SocketOpen, ClickConnectDrone, TimeoutFires 1] initialControl) \<and>
   jsonParse sampleRuntime ackText = Some sampleAck \<and>
   \<not> droneConnected (controlRun sampleRuntime [SocketOpen, ClickConnectDrone, SocketMessage ackText] initialControl)"
  by (simp add: initialControl_def controlStep_def keyboardEffect_def
      handler_defs sample_parse sampleAck_def getProp_def)

lemma effect_droneConnected [simp]: "droneConnected (keyboardEffect b s) = droneConnected s"
  by (simp add: keyboardEffect_def clearInterval_def Let_def split: option.splits)

lemma effect_sent [simp]: "sent (keyboardEffect b s) = sent s"
  by (simp add: keyboardEffect_def clearInterval_def Let_def split: option.splits)

lemma effect_same [simp]: "keyboardEffect s s = s"
  by (simp add: keyboardEffect_def)

lemma handle_droneConnected:
  "\<not> isTimeoutFires ev \<Longrightarrow> droneConnected (handle rt ev s) = droneConnected s"
  by (cases ev)
    (simp_all add: handler_defs sendManualCommands_eq Let_def split: option.splits)

text \<open>
  C1, amended. With a socket, \<open>connectDrone\<close> sends the connect request and arms one
  timeout; when an armed timeout fires the drone counts as connected, whatever has or has
  not been received; no other event, and in particular no received message, changes
  \<open>droneConnected\<close>. Without a socket \<open>connectDrone\<close> does nothing.
\<close>

theorem connect_by_timer:
  "(ws s \<longrightarrow>
      timeouts (connectDrone s) = timeouts s @ [nextTimerId s] \<and>
      sent (connectDrone s) = sent s @ (if socket s = OPEN then [command ''connect'' []] else []) \<and>
      droneConnected (connectDrone s) = droneConnected s) \<and>
   (\<not> ws s \<longrightarrow> connectDrone s = s) \<and>
   (i \<in> set (timeouts s) \<longrightarrow> droneConnected (controlStep rt (TimeoutFires i) s)) \<and>
   (\<not> isTimeoutFires ev \<longrightarrow> droneConnected (controlStep rt ev s) = droneConnected s)"
  by (simp add: connectDrone_def wsSend_def command_def controlStep_def connectTimeout_def
      handle_droneConnected)

lemma awaitingRun_eq:
  "awaitingRun = initialControl\<lparr>ws := True, connected := True,
      socket := OPEN, sent := [command ''connect'' []], timeouts := [1], nextTimerId := 2\<rparr>"
  by (simp add: awaitingRun_def initialControl_def controlStep_def keyboardEffect_def
      handler_defs command_def)

theorem connect_by_timer_witness:
  "ws awaitingRun \<and> socket awaitingRun = OPEN \<and> nextTimerId awaitingRun = 2 \<and>
   timeouts (connectDrone awaitingRun) = [1, 2] \<and>
   sent (connectDrone awaitingRun) = [command ''connect'' [], command ''connect'' []] \<and>
   \<not> droneConnected (connectDrone awaitingRun) \<and>
   \<not> ws initialControl \<and> connectDrone initialControl = initialControl \<and>
   1 \<in> set (timeouts awaitingRun) \<and>
   droneConnected (controlStep sampleRuntime (TimeoutFires 1) awaitingRun) \<and>
   \<not> isTimeoutFires (SocketMessage ackText) \<and>
   \<not> droneConnected (controlStep sampleRuntime (SocketMessage ackText) awaitingRun)"
  using connect_by_timer [of awaitingRun 1 sampleRuntime "SocketMessage ackText"]
        connect_by_timer [of initialControl 1 sampleRuntime "SocketMessage ackText"]
  by (simp add: awaitingRun_eq) (simp add: initialControl_def)

text \<open>
  C7. A received text that \<open>JSON.parse\<close> rejects leaves the whole page as it was: video
  frame, telemetry and mission status keep their values and the socket stays open.
\<close>

theorem malformed_dropped:
  assumes "jsonParse rt raw = None"
  shows "onmessage rt raw s = s \<and> controlStep rt (SocketMessage raw) s = s"
  using assms by (simp add: onmessage_def controlStep_def)

theorem malformed_dropped_witness:
  "jsonParse sampleRuntime ''{bad'' = None \<and>
   onmessage sampleRuntime ''{bad'' connectedRun = connectedRun \<and>
   controlStep sampleRuntime (SocketMessage ''{bad'') connectedRun = connectedRun \<and>
   socket connectedRun = OPEN"
  using malformed_dropped [of sampleRuntime "''{bad''" connectedRun]
  by (simp add: sample_parse connectedRun_eq)

text \<open>
  C6. For a flight plan whose \<open>estimated_battery_pct\<close> is a number, the page shows the
  "Mission Impossible!" alert exactly when that number exceeds 100.
\<close>

theorem infeasible_warning:
  assumes "truthy (flightPlan s)"
      and "getProp (flightPlan s) ''estimated_battery_pct'' = JNum pct"
  shows "batteryAlert rt s = MissionImpossible \<longleftrightarrow> 100 < pct"
  using assms by (simp add: batteryAlert_def greaterThan_def toNumber_def)

theorem infeasible_warning_witness:
  "truthy (samplePlan 135) \<and>
   getProp (samplePlan 135) ''estimated_battery_pct'' = JNum 135 \<and>
   batteryAlert sampleRuntime (connectedRun\<lparr>flightPlan := samplePlan 135\<rparr>) = MissionImpossible \<and>
   truthy (samplePlan 100) \<and>
   getProp (samplePlan 100) ''estimated_battery_pct'' = JNum 100 \<and>
   batteryAlert sampleRuntime (connectedRun\<lparr>flightPlan := samplePlan 100\<rparr>) = HighBatteryUsage"
proof -
  have p: "getProp (samplePlan x) ''estimated_battery_pct'' = JNum x" "truthy (samplePlan x)" for x
    by (simp_all add: samplePlan_def getProp_def)
  have h: "batteryAlert sampleRuntime (connectedRun\<lparr>flightPlan := samplePlan 100\<rparr>) = HighBatteryUsage"
    by (simp add: batteryAlert_def greaterThan_def toNumber_def p)
  show ?thesis
    using infeasible_warning [of "connectedRun\<lparr>flightPlan := samplePlan 135\<rparr>" 135 sampleRuntime]
          infeasible_warning [of "connectedRun\<lparr>flightPlan := samplePlan 100\<rparr>" 100 sampleRuntime]
    by (simp add: p h)
qed

lemma plannedRun_eq:
  "plannedRun = connectedRun\<lparr>fieldMap := sampleFieldMap, flightPlan := samplePlan 40\<rparr>"
  unfolding plannedRun_def connectedRun_def
  by (simp add: initialControl_def controlStep_def keyboardEffect_def
      handler_defs sample_parse sampleFieldMap_def)

lemma executeMission_sent:
  assumes "ws s" "socket s = OPEN" "truthy (flightPlan s)"
  shows "sent (executeMission now s) =
           sent s @
           [JObj [(''action'', JStr ''execute_mission''),
                  (''mission_data'',
                   JObj ([(''mission_id'', JStr (''mission_'' @ now))]
                         @ optionalField ''field_id'' (optChain (fieldMap s) ''field_id'')
                         @ optionalField ''waypoints'' (getProp (flightPlan s) ''waypoints'')
                         @ [(''altitude'', JNum (altitude s))]))]]"
  using assms by (simp add: executeMission_def wsSend_def optionalField_def)

lemma missionShaped_command: "a \<noteq> ''execute_mission'' \<Longrightarrow> missionShaped (command a p)"
  by (simp add: missionShaped_def command_def getProp_def)

lemma missionShaped_manual: "list_all missionShaped (manualCommands keys)"
  by (simp add: manualCommands_def controlTable_def missionShaped_command)

lemma executeMission_shaped:
  assumes "list_all missionShaped (sent s)"
  shows "list_all missionShaped (sent (executeMission now s))"
  using assms
  by (simp add: executeMission_def wsSend_def missionShaped_def nestedMission_def objectKeys_def
      getProp_def)

lemma handle_shaped:
  assumes "list_all missionShaped (sent s)"
  shows "list_all missionShaped (sent (handle rt ev s))"
proof (cases ev)
  case (IntervalFires i)
  then show ?thesis using assms
    by (simp add: sendManualCommands_eq missionShaped_manual split: option.splits)
next
  case (ClickExecuteMission now)
  then show ?thesis using assms by (simp add: executeMission_shaped)
next
  case (SocketMessage raw)
  then show ?thesis using assms
    by (simp add: onmessage_def Let_def split: option.splits)
qed (use assms in \<open>simp_all add: handler_defs Let_def missionShaped_command [unfolded command_def]
      split: option.splits\<close>)

lemma run_shaped:
  "list_all missionShaped (sent s) \<Longrightarrow> list_all missionShaped (sent (controlRun rt evs s))"
  by (induction evs arbitrary: s) (simp_all add: controlStep_def handle_shaped)

text \<open>
  C2, amended. After any sequence of events, every sent message whose action is
  \<open>execute_mission\<close> has exactly the top-level fields \<open>action\<close> and \<open>mission_data\<close>, and
  \<open>mission_data\<close> carries \<open>mission_id\<close> and \<open>altitude\<close>. The message that
  \<open>executeMission\<close> sends carries, inside \<open>mission_data\<close>, the mission id, the
  \<open>field_id\<close> of the loaded field map and the \<open>waypoints\<close> of the flight plan where these
  are defined, and the altitude, in this order.
\<close>

theorem mission_data_nested:
  assumes "s = controlRun rt evs initialControl"
  shows "list_all (\<lambda>m. getProp m ''action'' = JStr ''execute_mission'' \<longrightarrow> nestedMission m) (sent s) \<and>
         (ws s \<and> truthy (flightPlan s) \<longrightarrow>
            sent (executeMission now s) =
              sent s @
              [JObj [(''action'', JStr ''execute_mission''),
                     (''mission_data'',
                      JObj ([(''mission_id'', JStr (''mission_'' @ now))]
                            @ optionalField ''field_id'' (optChain (fieldMap s) ''field_id'')
                            @ optionalField ''waypoints'' (getProp (flightPlan s) ''waypoints'')
                            @ [(''altitude'', JNum (altitude s))]))]])"
proof -
  have inv: "controlInv s"
    unfolding assms by (rule controlInv_run) (rule controlInv_initial)
  have "list_all missionShaped (sent s)"
    unfolding assms by (rule run_shaped) (simp add: initialControl_def)
  then have a: "list_all (\<lambda>m. getProp m ''action'' = JStr ''execute_mission'' \<longrightarrow> nestedMission m) (sent s)"
    by (simp add: missionShaped_def [abs_def])
  have "ws s \<Longrightarrow> socket s = OPEN" using inv by (simp add: controlInv_def)
  then show ?thesis using a by (simp add: executeMission_sent)
qed

text \<open>
  C2, as stated, fails: the message that starts the sample mission has the two top-level
  fields \<open>action\<close> and \<open>mission_data\<close>, and none of \<open>mission_id\<close>, \<open>field_id\<close>,
  \<open>waypoints\<close>, \<open>altitude\<close> at the top level.
\<close>

theorem top_level_counterexample:
  "sent missionRun =
     [JObj [(''action'', JStr ''connect'')],
      JObj [(''action'', JStr ''execute_mission''),
            (''mission_data'',
             JObj [(''mission_id'', JStr ''mission_1700000000000''),
                   (''field_id'', JStr ''farm_1''),
                   (''waypoints'',
                    JArr [JObj [(''x'', JNum 0), (''y'', JNum 0)],
                          JObj [(''x'', JNum 1000), (''y'', JNum 0)]]),
                   (''altitude'', JNum 200)])]] \<and>
   objectKeys (last (sent missionRun)) = [''action'', ''mission_data''] \<and>
   getProp (last (sent missionRun)) ''mission_id'' = JUndefined \<and>
   getProp (last (sent missionRun)) ''field_id'' = JUndefined \<and>
   getProp (last (sent missionRun)) ''waypoints'' = JUndefined \<and>
   getProp (last (sent missionRun)) ''altitude'' = JUndefined"
proof -
  have "sent missionRun =
          sent (controlStep sampleRuntime (ClickExecuteMission ''1700000000000'') plannedRun)"
    by (simp add: missionRun_def plannedRun_def)
  also have "\<dots> =
     [JObj [(''action'', JStr ''connect'')],
      JObj [(''action'', JStr ''execute_mission''),
            (''mission_data'',
             JObj [(''mission_id'', JStr ''mission_1700000000000''),
                   (''field_id'', JStr ''farm_1''),
                   (''waypoints'',
                    JArr [JObj [(''x'', JNum 0), (''y'', JNum 0)],
                          JObj [(''x'', JNum 1000), (''y'', JNum 0)]]),
                   (''altitude'', JNum 200)])]]"
    by (simp add: plannedRun_eq connectedRun_eq initialControl_def controlStep_def
        executeMission_def wsSend_def samplePlan_def sampleFieldMap_def getProp_def optChain_def
        command_def)
  finally show ?thesis by (simp add: objectKeys_def getProp_def)
qed

theorem mission_data_nested_witness:
  "plannedRun =
     controlRun sampleRuntime
       [SocketOpen, ClickConnectDrone, TimeoutFires 1, FieldMapLoaded sampleFieldMapText,
        FlightPlanGenerated (samplePlan 40)]
       initialControl \<and>
   ws plannedRun \<and> truthy (flightPlan plannedRun) \<and>
   list_all (\<lambda>m. getProp m ''action'' = JStr ''execute_mission'' \<longrightarrow> nestedMission m)
     (sent plannedRun) \<and>
   sent (executeMission ''1700000000000'' plannedRun) =
     [JObj [(''action'', JStr ''connect'')],
      JObj [(''action'', JStr ''execute_mission''),
            (''mission_data'',
             JObj [(''mission_id'', JStr ''mission_1700000000000''),
                   (''field_id'', JStr ''farm_1''),
                   (''waypoints'',
                    JArr [JObj [(''x'', JNum 0), (''y'', JNum 0)],
                          JObj [(''x'', JNum 1000), (''y'', JNum 0)]]),
                   (''altitude'', JNum 200)])]]"
proof -
  have f: "ws plannedRun" "truthy (flightPlan plannedRun)"
    by (simp_all add: plannedRun_eq connectedRun_eq initialControl_def samplePlan_def)
  have v: "optChain (fieldMap plannedRun) ''field_id'' = JStr ''farm_1''"
          "getProp (flightPlan plannedRun) ''waypoints'' =
             JArr [JObj [(''x'', JNum 0), (''y'', JNum 0)], JObj [(''x'', JNum 1000), (''y'', JNum 0)]]"
          "altitude plannedRun = 200" "sent plannedRun = [JObj [(''action'', JStr ''connect'')]]"
    by (simp_all add: plannedRun_eq connectedRun_eq initialControl_def samplePlan_def
        sampleFieldMap_def optChain_def getProp_def command_def)
  note th = mission_data_nested [OF plannedRun_def, of "''1700000000000''"]
  have shaped: "list_all (\<lambda>m. getProp m ''action'' = JStr ''execute_mission'' \<longrightarrow> nestedMission m)
     (sent plannedRun)"
    using th by (rule conjunct1)
  have msg: "sent (executeMission ''1700000000000'' plannedRun) =
     [JObj [(''action'', JStr ''connect'')],
      JObj [(''action'', JStr ''execute_mission''),
            (''mission_data'',
             JObj [(''mission_id'', JStr ''mission_1700000000000''),
                   (''field_id'', JStr ''farm_1''),
                   (''waypoints'',
                    JArr [JObj [(''x'', JNum 0), (''y'', JNum 0)],
                          JObj [(''x'', JNum 1000), (''y'', JNum 0)]]),
                   (''altitude'', JNum 200)])]]"
    using th f by (simp add: v optionalField_def)
  show ?thesis
    using shaped msg f plannedRun_def by blast
qed

lemma samplingRun_eq:
  "samplingRun =
     connectedRun\<lparr>manualMode := True, keysPressed := {''a'', ''w''}, controlInterval := Some 2,
       intervals := [\<lparr>timerId = 2, period = 200,
                      callback = \<lparr>c_ws = True, c_droneConnected = True\<rparr>\<rparr>],
       nextTimerId := 3, listeners := Some \<lparr>c_ws = True, c_droneConnected = True\<rparr>\<rparr>"
proof -
  have "samplingRun =
      controlRun sampleRuntime [ClickManualMode, KeyDown ''W'', KeyDown ''a''] connectedRun"
    by (simp add: samplingRun_def connectedRun_def)
  then show ?thesis
    by (simp add: connectedRun_eq initialControl_def controlStep_def keyboardEffect_def
        handleKeyDown_def toLowerCase_def lowerChar_def Let_def)
qed

text \<open>
  C3, as stated, fails: with the keys \<open>w\<close> and \<open>a\<close> held, one firing of the sampling
  interval sends two commands, one for each key.
\<close>

theorem coalescing_counterexample:
  "keysPressed samplingRun = {''a'', ''w''} \<and>
   intervals samplingRun =
     [\<lparr>timerId = 2, period = 200, callback = \<lparr>c_ws = True, c_droneConnected = True\<rparr>\<rparr>] \<and>
   sent (controlStep sampleRuntime (IntervalFires 2) samplingRun) =
     sent samplingRun @
       [JObj [(''action'', JStr ''move_forward''), (''distance'', JNum 20)],
        JObj [(''action'', JStr ''move_left''), (''distance'', JNum 20)]]"
  by (simp add: samplingRun_eq connectedRun_eq initialControl_def controlStep_def
      sendManualCommands_eq manualCommands_def controlTable_def command_def)

lemma length_manualCommands:
  "length (concat (map (\<lambda>(k, m). if k \<in> keys then [m] else []) tbl)) =
   length (filter (\<lambda>k. k \<in> keys) (map fst tbl))"
  by (induction tbl) auto

lemma handle_key_sent:
  "sent (handle rt (KeyDown key) s) = sent s" "sent (handle rt (KeyUp key) s) = sent s"
  by (simp_all add: handleKeyDown_def handleKeyUp_def clearInterval_def Let_def
      split: option.splits)

lemma effect_nextTimerId [simp]: "nextTimerId (keyboardEffect b s) = nextTimerId s"
  by (simp add: keyboardEffect_def clearInterval_def Let_def split: option.splits)

lemma effect_intervals_subset:
  "set (intervals (keyboardEffect b s)) \<subseteq> set (intervals s)"
  by (auto simp: keyboardEffect_def clearInterval_def Let_def split: option.splits)

lemma handle_stale:
  assumes "stale i s"
  shows "stale i (handle rt ev s)"
proof (cases ev)
  case (KeyDown k)
  then show ?thesis using assms
    by (auto simp: stale_def handleKeyDown_def Let_def list_all_iff split: option.splits)
next
  case (KeyUp k)
  then show ?thesis using assms
    by (auto simp: stale_def handleKeyUp_def clearInterval_def Let_def list_all_iff
        split: option.splits)
next
  case (IntervalFires j)
  then show ?thesis using assms
    by (simp add: sendManualCommands_eq stale_def split: option.splits)
next
  case (SocketMessage raw)
  then show ?thesis using assms
    by (simp add: onmessage_def stale_def Let_def split: option.splits)
qed (use assms in \<open>simp_all add: handler_defs stale_def split: option.splits\<close>)

lemma stale_step: "stale i s \<Longrightarrow> stale i (controlStep rt ev s)"
proof -
  assume "stale i s"
  then have h: "stale i (handle rt ev s)" by (rule handle_stale)
  show ?thesis
    unfolding controlStep_def
    using h effect_intervals_subset [of s "handle rt ev s"]
    by (auto simp: stale_def list_all_iff)
qed

lemma stale_run: "stale i s \<Longrightarrow> stale i (controlRun rt evs s)"
  by (induction evs arbitrary: s) (simp_all add: stale_step)

lemma stale_fire: "stale i s \<Longrightarrow> controlStep rt (IntervalFires i) s = s"
proof -
  assume "stale i s"
  then have "find (\<lambda>t. timerId t = i) (intervals s) = None"
    by (auto simp: stale_def list_all_iff find_None_iff)
  then show ?thesis by (simp add: controlStep_def)
qed

lemma step_nextTimerId: "nextTimerId s \<le> nextTimerId (controlStep rt ev s)"
  by (cases ev)
    (simp_all add: controlStep_def handler_defs sendManualCommands_eq Let_def
      split: option.splits)

lemma quiet_stale:
  assumes "controlInv s" "intervals (controlStep rt ev s) = []"
  shows "list_all (\<lambda>t. stale (timerId t) (controlStep rt ev s)) (intervals s)"
  using assms step_nextTimerId [of s rt ev]
  by (auto simp: controlInv_def stale_def list_all_iff)

lemma handleKeyUp_cases:
  "handleKeyUp key s =
     (case controlInterval s of
        None \<Rightarrow> s\<lparr>keysPressed := keysPressed s - {toLowerCase key}\<rparr>
      | Some i \<Rightarrow>
          if keysPressed s - {toLowerCase key} = {}
          then s\<lparr>keysPressed := keysPressed s - {toLowerCase key},
                 intervals := filter (\<lambda>t. timerId t \<noteq> i) (intervals s),
                 controlInterval := None\<rparr>
          else s\<lparr>keysPressed := keysPressed s - {toLowerCase key}\<rparr>)"
  by (simp add: handleKeyUp_def clearInterval_def Let_def split: option.splits)

lemma keyUp_step:
  "controlStep rt (KeyUp key) s = (case listeners s of None \<Rightarrow> s | Some c \<Rightarrow> handleKeyUp key s)"
  by (simp add: controlStep_def keyboardEffect_def handleKeyUp_cases split: option.splits)

lemma keyUp_cancels:
  assumes "controlInv s" "keysPressed (controlStep rt (KeyUp key) s) = {}"
  shows "intervals (controlStep rt (KeyUp key) s) = []"
proof (cases "intervals s")
  case Nil
  then show ?thesis
    by (simp add: keyUp_step handleKeyUp_cases split: option.splits)
next
  case (Cons t ts)
  with assms(1) obtain c where c: "listeners s = Some c"
    and i: "controlInterval s = Some (timerId t)" and ts: "ts = []"
    by (auto simp: controlInv_def)
  define K where "K = keysPressed s - {toLowerCase key}"
  have step: "controlStep rt (KeyUp key) s =
      (if K = {}
       then s\<lparr>keysPressed := K, intervals := filter (\<lambda>u. timerId u \<noteq> timerId t) (intervals s),
              controlInterval := None\<rparr>
       else s\<lparr>keysPressed := K\<rparr>)"
    by (simp add: keyUp_step handleKeyUp_cases c i K_def)
  from assms(2) have "K = {}"
    unfolding step by (simp split: if_splits)
  then show ?thesis
    unfolding step by (simp add: Cons ts)
qed

lemma emergency_cancels:
  assumes "controlInv s" "ws s"
  shows "intervals (controlStep rt ClickEmergencyStop s) = []"
  using assms
  by (cases "intervals s")
    (auto simp: controlStep_def emergencyStop_def wsSend_def keyboardEffect_def clearInterval_def
      controlInv_def Let_def split: option.splits)

lemma effect_socket [simp]:
  "socket (keyboardEffect b s) = socket s" "timeouts (keyboardEffect b s) = timeouts s"
  "ws (keyboardEffect b s) = ws s"
  by (simp_all add: keyboardEffect_def clearInterval_def Let_def split: option.splits)

lemma connectingInv_step:
  assumes "connectingInv s"
  shows "connectingInv (controlStep rt ev s)"
  using assms
  by (cases ev)
    (auto simp: connectingInv_def controlStep_def handler_defs sendManualCommands_eq Let_def
      split: option.splits)

lemma connectingInv_run: "connectingInv s \<Longrightarrow> connectingInv (controlRun rt evs s)"
  by (induction evs arbitrary: s) (simp_all add: connectingInv_step)

lemma closed_step: "socket s = CLOSED \<Longrightarrow> socket (controlStep rt ev s) = CLOSED"
  by (cases ev)
    (simp_all add: controlStep_def handler_defs sendManualCommands_eq Let_def split: option.splits)

lemma closed_run: "socket s = CLOSED \<Longrightarrow> socket (controlRun rt evs s) = CLOSED"
  by (induction evs arbitrary: s) (simp_all add: closed_step)

lemma fire_closed:
  "socket s \<noteq> OPEN \<Longrightarrow> sent (controlStep rt (IntervalFires i) s) = sent s"
  by (simp add: controlStep_def sendManualCommands_eq split: option.splits)

lemma emergency_without_socket:
  "\<not> ws s \<Longrightarrow> controlStep rt ClickEmergencyStop s = s"
  by (simp add: controlStep_def emergencyStop_def)

lemma heldRun_eq:
  "heldRun =
     connectedRun\<lparr>manualMode := True, keysPressed := {''w''}, controlInterval := Some 2,
       intervals := [\<lparr>timerId = 2, period = 200,
                      callback = \<lparr>c_ws = True, c_droneConnected = True\<rparr>\<rparr>],
       nextTimerId := 3, listeners := Some \<lparr>c_ws = True, c_droneConnected = True\<rparr>\<rparr>"
proof -
  have "heldRun = controlRun sampleRuntime [ClickManualMode, KeyDown ''w''] connectedRun"
    by (simp add: heldRun_def connectedRun_def)
  then show ?thesis
    by (simp add: connectedRun_eq initialControl_def controlStep_def keyboardEffect_def
        handleKeyDown_def toLowerCase_def lowerChar_def Let_def)
qed

lemma capturedInv_handle:
  assumes "capturedInv s" "controlInv s" "connectingInv s"
  shows "capturedInv (handle rt ev s)"
proof (cases ev)
  case SocketOpen
  show ?thesis
  proof (cases "socket s = CONNECTING")
    case True
    with assms(3) have "\<not> droneConnected s" by (simp add: connectingInv_def)
    with assms(2) have "listeners s = None" "intervals s = []"
      by (cases "intervals s"; auto simp: controlInv_def)+
    then show ?thesis using SocketOpen True by (simp add: capturedInv_def onopen_def)
  next
    case False
    then show ?thesis using SocketOpen assms(1) by simp
  qed
next
  case (KeyDown k)
  then show ?thesis using assms(1)
    by (auto simp: capturedInv_def handleKeyDown_def Let_def list_all_iff split: option.splits)
next
  case (KeyUp k)
  then show ?thesis using assms(1)
    by (auto simp: capturedInv_def handleKeyUp_cases list_all_iff split: option.splits)
next
  case (IntervalFires i)
  then show ?thesis using assms(1)
    by (simp add: sendManualCommands_eq capturedInv_def split: option.splits)
next
  case (SocketMessage raw)
  then show ?thesis using assms(1)
    by (simp add: onmessage_def capturedInv_def Let_def split: option.splits)
next
  case SocketClose
  then show ?thesis using assms(1)
    by (auto simp: capturedInv_def onclose_def list_all_iff split: option.splits)
qed (use assms(1) in \<open>auto simp: handler_defs capturedInv_def list_all_iff split: option.splits\<close>)

lemma capturedInv_effect:
  assumes "capturedInv s"
  shows "capturedInv (keyboardEffect b s)"
  using assms
  by (auto simp: capturedInv_def keyboardEffect_def clearInterval_def Let_def list_all_iff
      split: option.splits)

lemma capturedInv_run:
  assumes "capturedInv s" "controlInv s" "connectingInv s"
  shows "capturedInv (controlRun rt evs s)"
  using assms
proof (induction evs arbitrary: s)
  case Nil
  then show ?case by simp
next
  case (Cons ev evs)
  have "capturedInv (controlStep rt ev s)"
    unfolding controlStep_def using Cons.prems by (intro capturedInv_effect capturedInv_handle)
  with Cons show ?case by (simp add: controlInv_step connectingInv_step)
qed

lemma firing_sends:
  assumes "capturedInv s" "controlInv s" "t \<in> set (intervals s)"
  shows "sent (controlStep rt (IntervalFires (timerId t)) s) =
           sent s @ (if socket s = OPEN then manualCommands (keysPressed s) else [])"
proof -
  from assms(2,3) have one: "intervals s = [t]" and w: "ws s \<longleftrightarrow> socket s = OPEN"
    by (auto simp: controlInv_def list_all_iff)
  from assms(1,3) have c: "c_droneConnected (callback t)" "ws s \<longrightarrow> c_ws (callback t)"
    by (auto simp: capturedInv_def list_all_iff)
  show ?thesis
    using c w by (auto simp: controlStep_def one sendManualCommands_eq)
qed

lemma droppedRun_eq:
  "droppedRun = heldRun\<lparr>ws := False, connected := False, socket := CLOSED\<rparr>"
proof -
  have "droppedRun = controlStep sampleRuntime SocketClose heldRun"
    by (simp add: droppedRun_def heldRun_def)
  also have "\<dots> = heldRun\<lparr>ws := False, connected := False, socket := CLOSED\<rparr>"
    by (simp add: heldRun_eq connectedRun_eq initialControl_def controlStep_def onclose_def
        keyboardEffect_def)
  finally show ?thesis .
qed

lemma capturedInv_initial: "capturedInv initialControl"
  by (simp add: capturedInv_def initialControl_def)

lemma connectingInv_initial: "connectingInv initialControl"
  by (simp add: connectingInv_def initialControl_def)

text \<open>
  C3, amended. After any sequence of events every running interval has the period 200 ms,
  and a firing of it runs \<open>sendManualCommands\<close>: while the socket is open the firing sends
  one command for each held control key, in the fixed order of the key table, so as many
  commands as control keys are held; while the socket is not open the firing sends
  nothing. The same holds of \<open>sendManualCommands\<close> itself when its closure holds the
  socket and sees the drone connected. A key press and a key release send nothing
  themselves.
\<close>

theorem one_command_per_held_key:
  assumes "s = controlRun rt evs initialControl"
  shows "list_all
           (\<lambda>t. period t = 200 \<and>
                 sent (controlStep rt (IntervalFires (timerId t)) s) =
                   sent s @ (if socket s = OPEN then manualCommands (keysPressed s) else []) \<and>
                 controlStep rt (IntervalFires (timerId t)) s =
                   keyboardEffect s (sendManualCommands (callback t) s))
           (intervals s) \<and>
         (c_ws c \<and> c_droneConnected c \<and> socket s = OPEN \<longrightarrow>
            sent (sendManualCommands c s) = sent s @ manualCommands (keysPressed s)) \<and>
         length (manualCommands (keysPressed s)) =
           length (filter (\<lambda>k. k \<in> keysPressed s) (map fst controlTable)) \<and>
         sent (controlStep rt (KeyDown key) s) = sent s \<and>
         sent (controlStep rt (KeyUp key') s) = sent s"
proof -
  have inv: "controlInv s"
    unfolding assms by (rule controlInv_run) (rule controlInv_initial)
  have cap: "capturedInv s"
    unfolding assms
    by (rule capturedInv_run [OF capturedInv_initial controlInv_initial connectingInv_initial])
  have a: "list_all (\<lambda>t. period t = 200 \<and>
                     controlStep rt (IntervalFires (timerId t)) s =
                       keyboardEffect s (sendManualCommands (callback t) s))
           (intervals s)"
    using inv by (auto simp: controlInv_def list_all_iff controlStep_def)
  have f: "list_all
           (\<lambda>t. sent (controlStep rt (IntervalFires (timerId t)) s) =
                   sent s @ (if socket s = OPEN then manualCommands (keysPressed s) else []))
           (intervals s)"
    unfolding list_all_iff using firing_sends [OF cap inv] by blast
  have b: "c_ws c \<and> c_droneConnected c \<and> socket s = OPEN \<longrightarrow>
            sent (sendManualCommands c s) = sent s @ manualCommands (keysPressed s)"
    by (simp add: sendManualCommands_eq)
  have l: "length (manualCommands (keysPressed s)) =
           length (filter (\<lambda>k. k \<in> keysPressed s) (map fst controlTable))"
    by (simp add: manualCommands_def length_manualCommands)
  have k: "sent (controlStep rt (KeyDown key) s) = sent s"
          "sent (controlStep rt (KeyUp key') s) = sent s"
    by (simp_all only: controlStep_def effect_sent handle_key_sent)
  from a f have af: "list_all
           (\<lambda>t. period t = 200 \<and>
                 sent (controlStep rt (IntervalFires (timerId t)) s) =
                   sent s @ (if socket s = OPEN then manualCommands (keysPressed s) else []) \<and>
                 controlStep rt (IntervalFires (timerId t)) s =
                   keyboardEffect s (sendManualCommands (callback t) s))
           (intervals s)"
    by (simp add: list_all_iff)
  show ?thesis
    using af b l k by blast
qed

theorem one_command_per_held_key_witness:
  "samplingRun =
     controlRun sampleRuntime
       [SocketOpen, ClickConnectDrone, TimeoutFires 1, ClickManualMode, KeyDown ''W'', KeyDown ''a'']
       initialControl \<and>
   socket samplingRun = OPEN \<and>
   keysPressed samplingRun = {''a'', ''w''} \<and>
   intervals samplingRun =
     [\<lparr>timerId = 2, period = 200, callback = \<lparr>c_ws = True, c_droneConnected = True\<rparr>\<rparr>] \<and>
   sent (controlStep sampleRuntime (IntervalFires 2) samplingRun) =
     [JObj [(''action'', JStr ''connect'')],
      JObj [(''action'', JStr ''move_forward''), (''distance'', JNum 20)],
      JObj [(''action'', JStr ''move_left''), (''distance'', JNum 20)]] \<and>
   sent (sendManualCommands \<lparr>c_ws = True, c_droneConnected = True\<rparr> samplingRun) =
     [JObj [(''action'', JStr ''connect'')],
      JObj [(''action'', JStr ''move_forward''), (''distance'', JNum 20)],
      JObj [(''action'', JStr ''move_left''), (''distance'', JNum 20)]] \<and>
   length (manualCommands (keysPressed samplingRun)) = 2 \<and>
   sent (controlStep sampleRuntime (KeyDown ''d'') samplingRun) = sent samplingRun \<and>
   sent (controlStep sampleRuntime (KeyUp ''a'') samplingRun) = sent samplingRun \<and>
   droppedRun =
     controlRun sampleRuntime
       [SocketOpen, ClickConnectDrone, TimeoutFires 1, ClickManualMode, KeyDown ''w'', SocketClose]
       initialControl \<and>
   socket droppedRun = CLOSED \<and> keysPressed droppedRun = {''w''} \<and>
   intervals droppedRun =
     [\<lparr>timerId = 2, period = 200, callback = \<lparr>c_ws = True, c_droneConnected = True\<rparr>\<rparr>] \<and>
   sent (controlStep sampleRuntime (IntervalFires 2) droppedRun) = sent droppedRun"
proof -
  note th = one_command_per_held_key
    [OF samplingRun_def, where c = "\<lparr>c_ws = True, c_droneConnected = True\<rparr>"
       and key = "''d''" and key' = "''a''"]
  note th' = one_command_per_held_key
    [OF droppedRun_def, where c = "\<lparr>c_ws = True, c_droneConnected = True\<rparr>"
       and key = "''d''" and key' = "''a''"]
  have v: "socket samplingRun = OPEN" "keysPressed samplingRun = {''a'', ''w''}"
    "intervals samplingRun =
       [\<lparr>timerId = 2, period = 200, callback = \<lparr>c_ws = True, c_droneConnected = True\<rparr>\<rparr>]"
    "sent samplingRun = [JObj [(''action'', JStr ''connect'')]]"
    by (simp_all add: samplingRun_eq connectedRun_eq initialControl_def command_def)
  have m: "manualCommands {''a'', ''w''} =
      [JObj [(''action'', JStr ''move_forward''), (''distance'', JNum 20)],
       JObj [(''action'', JStr ''move_left''), (''distance'', JNum 20)]]"
    by (simp add: manualCommands_def controlTable_def command_def)
  have d: "socket droppedRun = CLOSED" "keysPressed droppedRun = {''w''}"
    "intervals droppedRun =
       [\<lparr>timerId = 2, period = 200, callback = \<lparr>c_ws = True, c_droneConnected = True\<rparr>\<rparr>]"
    by (simp_all add: droppedRun_eq heldRun_eq connectedRun_eq initialControl_def)
  have one: "sent (controlStep sampleRuntime (IntervalFires 2) samplingRun) =
     [JObj [(''action'', JStr ''connect'')],
      JObj [(''action'', JStr ''move_forward''), (''distance'', JNum 20)],
      JObj [(''action'', JStr ''move_left''), (''distance'', JNum 20)]]"
    and two: "sent (sendManualCommands \<lparr>c_ws = True, c_droneConnected = True\<rparr> samplingRun) =
     [JObj [(''action'', JStr ''connect'')],
      JObj [(''action'', JStr ''move_forward''), (''distance'', JNum 20)],
      JObj [(''action'', JStr ''move_left''), (''distance'', JNum 20)]]"
    and three: "length (manualCommands (keysPressed samplingRun)) = 2"
    and four: "sent (controlStep sampleRuntime (KeyDown ''d'') samplingRun) = sent samplingRun"
       "sent (controlStep sampleRuntime (KeyUp ''a'') samplingRun) = sent samplingRun"
    using th by (simp_all add: v m)
  from th' have "list_all
           (\<lambda>t. sent (controlStep sampleRuntime (IntervalFires (timerId t)) droppedRun) =
                   sent droppedRun @
                     (if socket droppedRun = OPEN then manualCommands (keysPressed droppedRun)
                      else []))
           (intervals droppedRun)"
    unfolding list_all_iff by blast
  then have five: "sent (controlStep sampleRuntime (IntervalFires 2) droppedRun) = sent droppedRun"
    by (simp add: d)
  show ?thesis
    using one two three four five v(1-3) d samplingRun_def droppedRun_def by blast
qed

lemma release_cancels:
  assumes "controlInv s" "keysPressed s \<subseteq> {toLowerCase key}"
  shows "intervals (controlStep rt (KeyUp key) s) = []"
proof (cases "intervals s")
  case Nil
  then show ?thesis
    by (simp add: keyUp_step handleKeyUp_cases split: option.splits)
next
  case (Cons t ts)
  with assms(1) obtain c where c: "listeners s = Some c"
    and i: "controlInterval s = Some (timerId t)" and ts: "ts = []"
    by (auto simp: controlInv_def)
  from assms(2) have K: "keysPressed s - {toLowerCase key} = {}" by blast
  show ?thesis
    by (simp add: keyUp_step handleKeyUp_cases c i K Cons ts)
qed

text \<open>
  C4, as stated, fails: with a key held in manual mode and the socket closed since, a click
  on the emergency stop changes nothing; the sampling interval stays registered and manual
  mode stays on.
\<close>

theorem emergency_counterexample:
  "droppedRun =
     controlRun sampleRuntime
       [SocketOpen, ClickConnectDrone, TimeoutFires 1, ClickManualMode, KeyDown ''w'', SocketClose]
       initialControl \<and>
   intervals droppedRun =
     [\<lparr>timerId = 2, period = 200, callback = \<lparr>c_ws = True, c_droneConnected = True\<rparr>\<rparr>] \<and>
   intervals (controlStep sampleRuntime ClickEmergencyStop droppedRun) =
     [\<lparr>timerId = 2, period = 200, callback = \<lparr>c_ws = True, c_droneConnected = True\<rparr>\<rparr>] \<and>
   manualMode (controlStep sampleRuntime ClickEmergencyStop droppedRun) \<and>
   sent (controlStep sampleRuntime ClickEmergencyStop droppedRun) = sent droppedRun"
proof -
  have same: "controlStep sampleRuntime ClickEmergencyStop droppedRun = droppedRun"
    by (simp add: controlStep_def emergencyStop_def droppedRun_eq)
  have v: "intervals droppedRun =
     [\<lparr>timerId = 2, period = 200, callback = \<lparr>c_ws = True, c_droneConnected = True\<rparr>\<rparr>]"
    "manualMode droppedRun"
    by (simp_all add: droppedRun_eq heldRun_eq connectedRun_eq initialControl_def)
  show ?thesis
    unfolding same using v droppedRun_def by blast
qed

text \<open>
  C4, amended. Take the page after any sequence of events. If a key is released and no
  other key is held, then in the same step no interval runs any more; if the emergency stop
  is clicked while the page holds the socket, then likewise in the same step no interval
  runs any more. In both cases, whatever events follow, a firing of the interval that was
  running changes nothing, so it sends nothing. If the emergency stop is clicked while the
  page does not hold the socket, the click changes nothing, so a running interval is not
  cancelled. After a click on the emergency stop, with or without the socket, no later
  firing of the interval that was running sends anything. A handler, the render after it
  and the keyboard effect are one step here.
\<close>

theorem sampling_cancelled:
  assumes "s = controlRun rt evs initialControl"
  shows "(keysPressed s \<subseteq> {toLowerCase key} \<longrightarrow>
            intervals (controlStep rt (KeyUp key) s) = [] \<and>
            list_all
              (\<lambda>t. controlStep rt (IntervalFires (timerId t))
                      (controlRun rt later (controlStep rt (KeyUp key) s)) =
                    controlRun rt later (controlStep rt (KeyUp key) s))
              (intervals s)) \<and>
         (ws s \<longrightarrow>
            intervals (controlStep rt ClickEmergencyStop s) = [] \<and>
            list_all
              (\<lambda>t. controlStep rt (IntervalFires (timerId t))
                      (controlRun rt later (controlStep rt ClickEmergencyStop s)) =
                    controlRun rt later (controlStep rt ClickEmergencyStop s))
              (intervals s)) \<and>
         (\<not> ws s \<longrightarrow> controlStep rt ClickEmergencyStop s = s) \<and>
         list_all
           (\<lambda>t. sent (controlStep rt (IntervalFires (timerId t))
                         (controlRun rt later (controlStep rt ClickEmergencyStop s))) =
                 sent (controlRun rt later (controlStep rt ClickEmergencyStop s)))
           (intervals s)"
proof -
  have inv: "controlInv s"
    unfolding assms by (rule controlInv_run) (rule controlInv_initial)
  have cinv: "connectingInv s"
    unfolding assms by (rule connectingInv_run) (rule connectingInv_initial)
  have never: "list_all
              (\<lambda>t. controlStep rt (IntervalFires (timerId t)) (controlRun rt later (controlStep rt ev s)) =
                    controlRun rt later (controlStep rt ev s))
              (intervals s)"
    if "intervals (controlStep rt ev s) = []" for ev
    using quiet_stale [OF inv that]
    by (auto simp: list_all_iff intro!: stale_fire stale_run)
  have silent: "list_all
           (\<lambda>t. sent (controlStep rt (IntervalFires (timerId t))
                         (controlRun rt later (controlStep rt ClickEmergencyStop s))) =
                 sent (controlRun rt later (controlStep rt ClickEmergencyStop s)))
           (intervals s)"
  proof (cases "ws s")
    case True
    then have "intervals (controlStep rt ClickEmergencyStop s) = []"
      by (rule emergency_cancels [OF inv])
    from never [OF this] show ?thesis by (simp add: list_all_iff)
  next
    case False
    show ?thesis
    proof (cases "intervals s")
      case Nil
      then show ?thesis by simp
    next
      case (Cons t ts)
      with inv have "droneConnected s" by (simp add: controlInv_def)
      with cinv have "socket s \<noteq> CONNECTING" by (auto simp: connectingInv_def)
      moreover from inv False have "socket s \<noteq> OPEN" by (simp add: controlInv_def)
      ultimately have "socket s = CLOSED" by (cases "socket s") simp_all
      then have "socket (controlRun rt later s) = CLOSED" by (rule closed_run)
      then show ?thesis
        by (simp add: emergency_without_socket [OF False] fire_closed list_all_iff)
    qed
  qed
  show ?thesis
    using release_cancels [OF inv] emergency_cancels [OF inv] never silent
      emergency_without_socket by blast
qed

theorem sampling_cancelled_witness:
  "heldRun =
     controlRun sampleRuntime
       [SocketOpen, ClickConnectDrone, TimeoutFires 1, ClickManualMode, KeyDown ''w'']
       initialControl \<and>
   intervals heldRun =
     [\<lparr>timerId = 2, period = 200, callback = \<lparr>c_ws = True, c_droneConnected = True\<rparr>\<rparr>] \<and>
   keysPressed heldRun \<subseteq> {toLowerCase ''W''} \<and>
   intervals (controlStep sampleRuntime (KeyUp ''W'') heldRun) = [] \<and>
   controlStep sampleRuntime (IntervalFires 2)
       (controlRun sampleRuntime [KeyDown ''d''] (controlStep sampleRuntime (KeyUp ''W'') heldRun)) =
     controlRun sampleRuntime [KeyDown ''d''] (controlStep sampleRuntime (KeyUp ''W'') heldRun) \<and>
   ws heldRun \<and>
   intervals (controlStep sampleRuntime ClickEmergencyStop heldRun) = [] \<and>
   controlStep sampleRuntime (IntervalFires 2)
       (controlRun sampleRuntime [KeyDown ''d''] (controlStep sampleRuntime ClickEmergencyStop heldRun)) =
     controlRun sampleRuntime [KeyDown ''d''] (controlStep sampleRuntime ClickEmergencyStop heldRun) \<and>
   \<not> ws droppedRun \<and>
   controlStep sampleRuntime ClickEmergencyStop droppedRun = droppedRun \<and>
   sent (controlStep sampleRuntime (IntervalFires 2)
           (controlRun sampleRuntime [KeyDown ''d'']
              (controlStep sampleRuntime ClickEmergencyStop droppedRun))) =
     sent (controlRun sampleRuntime [KeyDown ''d'']
             (controlStep sampleRuntime ClickEmergencyStop droppedRun))"
proof -
  note th = sampling_cancelled [OF heldRun_def, where key = "''W''" and later = "[KeyDown ''d'']"]
  note th' = sampling_cancelled [OF droppedRun_def, where key = "''W''" and later = "[KeyDown ''d'']"]
  have v: "intervals heldRun =
     [\<lparr>timerId = 2, period = 200, callback = \<lparr>c_ws = True, c_droneConnected = True\<rparr>\<rparr>]"
    "ws heldRun"
    by (simp_all add: heldRun_eq connectedRun_eq initialControl_def)
  have k: "keysPressed heldRun \<subseteq> {toLowerCase ''W''}"
    by (simp add: heldRun_eq toLowerCase_def lowerChar_def)
  have d: "\<not> ws droppedRun" "intervals droppedRun =
     [\<lparr>timerId = 2, period = 200, callback = \<lparr>c_ws = True, c_droneConnected = True\<rparr>\<rparr>]"
    by (simp_all add: droppedRun_eq heldRun_eq connectedRun_eq initialControl_def)
  have a: "intervals (controlStep sampleRuntime (KeyUp ''W'') heldRun) = [] \<and>
   controlStep sampleRuntime (IntervalFires 2)
       (controlRun sampleRuntime [KeyDown ''d''] (controlStep sampleRuntime (KeyUp ''W'') heldRun)) =
     controlRun sampleRuntime [KeyDown ''d''] (controlStep sampleRuntime (KeyUp ''W'') heldRun) \<and>
   intervals (controlStep sampleRuntime ClickEmergencyStop heldRun) = [] \<and>
   controlStep sampleRuntime (IntervalFires 2)
       (controlRun sampleRuntime [KeyDown ''d''] (controlStep sampleRuntime ClickEmergencyStop heldRun)) =
     controlRun sampleRuntime [KeyDown ''d''] (controlStep sampleRuntime ClickEmergencyStop heldRun)"
    using th k by (simp add: v)
  have b: "controlStep sampleRuntime ClickEmergencyStop droppedRun = droppedRun"
    using th' d(1) by blast
  from th' have "list_all
           (\<lambda>t. sent (controlStep sampleRuntime (IntervalFires (timerId t))
                         (controlRun sampleRuntime [KeyDown ''d'']
                            (controlStep sampleRuntime ClickEmergencyStop droppedRun))) =
                 sent (controlRun sampleRuntime [KeyDown ''d'']
                         (controlStep sampleRuntime ClickEmergencyStop droppedRun)))
           (intervals droppedRun)"
    by blast
  then have c: "sent (controlStep sampleRuntime (IntervalFires 2)
           (controlRun sampleRuntime [KeyDown ''d'']
              (controlStep sampleRuntime ClickEmergencyStop droppedRun))) =
     sent (controlRun sampleRuntime [KeyDown ''d'']
             (controlStep sampleRuntime ClickEmergencyStop droppedRun))"
    unfolding d(2) by simp
  show ?thesis
    using a b c v k d(1) heldRun_def by blast
qed

end
